theory Spec2Isabelle
  imports Complex_Main "HOL-Library.Multiset"
begin

section \<open>Data model of the annotation editor (src/src/app.component.ts)\<close>

text \<open>
  The component keeps its state in signals and plain fields. A JavaScript \<open>number\<close> that
  holds a coordinate, a size or the zoom factor is modelled as a \<open>real\<close>: the model is the
  exact arithmetic the code is written in, without rounding, NaN or infinities. A number
  that is an index or a page number is an \<open>int\<close>, with \<open>-1\<close> as the code's "none".
  The user's text is a list of UTF-16 code units, as a JavaScript string is.
\<close>

type_synonym jstring = "nat list"

record point =
  pt_x :: real
  pt_y :: real

record text_settings =
  ts_font :: string
  ts_size :: real
  ts_color :: string
  ts_bold :: bool

record text_annotation =
  t_x :: real
  t_y :: real
  t_text :: jstring
  t_size :: real
  t_color :: string
  t_font :: string
  t_bold :: bool
  t_width :: real
  t_height :: real

record draw_annotation =
  d_path :: "point list"
  d_color :: string
  d_lineWidth :: real

record image_annotation =
  i_x :: real
  i_y :: real
  i_width :: real
  i_height :: real
  i_imageData :: string
  i_originalAspectRatio :: real

datatype annotation =
  Text text_annotation
| Draw draw_annotation
| Image image_annotation

datatype drag_mode = DragMove | DragResize | DragNone

datatype tab = TabEdit | TabOrganize | TabSecurity

datatype tool = ToolSelect | ToolText | ToolDraw

record rect =
  r_x :: real
  r_y :: real
  r_width :: real
  r_height :: real

record text_editing =
  te_x :: real
  te_y :: real
  te_width :: real
  te_text :: jstring

text \<open>
  The fields of \<open>AppComponent\<close> that the editing engine reads or writes. \<open>'doc\<close> is the
  handle of the document-mutator library (\<open>pdfLibDoc\<close>), \<open>'pdf\<close> the handle of the page
  rasterizer (\<open>pdfDoc\<close>); \<open>None\<close> is the code's \<open>null\<close>.
\<close>

record ('doc, 'pdf) state =
  pdfDoc :: "'pdf option"
  pdfLibDoc :: "'doc option"
  currentPageNum :: int
  totalPages :: int
  scale :: real
  activeTab :: tab
  activeTool :: tool
  isSaving :: bool
  isPageNumberPanelOpen :: bool
  pageOrder :: "int list"
  annotations :: "annotation list list"
  isDrawing :: bool
  currentDrawingPath :: "point list"
  isEditingText :: bool
  textEditingState :: "text_editing option"
  textSettings :: text_settings
  selectedAnnotationIndex :: int
  dragMode :: drag_mode
  dragStartPos :: point
  dragStartAnn :: rect
  undoStack :: "annotation list list list"
  redoStack :: "annotation list list list"

text \<open>The field initialisers of the class: the state of a freshly created component.\<close>

definition initial_state :: "('doc, 'pdf) state" where
  "initial_state =
     \<lparr> pdfDoc = None, pdfLibDoc = None, currentPageNum = 1, totalPages = 0,
       scale = 1.5, activeTab = TabEdit, activeTool = ToolSelect, isSaving = False,
       isPageNumberPanelOpen = False, pageOrder = [], annotations = [],
       isDrawing = False, currentDrawingPath = [], isEditingText = False,
       textEditingState = None,
       textSettings = \<lparr> ts_font = ''Helvetica'', ts_size = 16, ts_color = ''#000000'',
                        ts_bold = False \<rparr>,
       selectedAnnotationIndex = - 1, dragMode = DragNone,
       dragStartPos = \<lparr> pt_x = 0, pt_y = 0 \<rparr>,
       dragStartAnn = \<lparr> r_x = 0, r_y = 0, r_width = 0, r_height = 0 \<rparr>,
       undoStack = [], redoStack = [] \<rparr>"

section \<open>Zoom\<close>

text \<open>
  \<^verbatim>\<open>zoomIn = () => this.scale.update(s => Math.min(5, s + 0.25));\<close>
  \<^verbatim>\<open>zoomOut = () => this.scale.update(s => Math.max(0.25, s - 0.25));\<close>
\<close>

definition zoomIn :: "('doc, 'pdf) state \<Rightarrow> ('doc, 'pdf) state" where
  "zoomIn st = st\<lparr> scale := min 5 (scale st + 0.25) \<rparr>"

definition zoomOut :: "('doc, 'pdf) state \<Rightarrow> ('doc, 'pdf) state" where
  "zoomOut st = st\<lparr> scale := max 0.25 (scale st - 0.25) \<rparr>"

datatype zoom_op = ZoomIn | ZoomOut

fun zoom_step :: "zoom_op \<Rightarrow> ('doc, 'pdf) state \<Rightarrow> ('doc, 'pdf) state" where
  "zoom_step ZoomIn st = zoomIn st"
| "zoom_step ZoomOut st = zoomOut st"

fun zoom_run :: "zoom_op list \<Rightarrow> ('doc, 'pdf) state \<Rightarrow> ('doc, 'pdf) state" where
  "zoom_run [] st = st"
| "zoom_run (z # zs) st = zoom_run zs (zoom_step z st)"

text \<open>
  The pointer handlers convert a pointer position to document space by dividing by the
  zoom factor: \<^verbatim>\<open>{ x: pos.x / this.scale(), y: pos.y / this.scale() }\<close>.
\<close>

definition toDocument :: "('doc, 'pdf) state \<Rightarrow> point \<Rightarrow> point" where
  "toDocument st pos = \<lparr> pt_x = pt_x pos / scale st, pt_y = pt_y pos / scale st \<rparr>"

section \<open>Export of annotations (savePdf)\<close>

text \<open>
  The last loop of \<open>savePdf\<close> walks the pages of the new document and, for each annotation
  of the page, embeds what the annotation needs and issues one drawing call on the
  document-mutator library. The model returns the calls as data: a call records the
  arguments handed to the library (the handle of the embedded font or image, the
  coordinates, the sizes) and, for a text, the colour string that \<open>hexToRgb\<close> converts.
  What the library then paints from these arguments is the library's side.

  Three things can throw inside the loop, and \<open>savePdf\<close> catches each as a failed export:
  \<^verbatim>\<open>newPdfDoc.embedFont\<close> behind \<open>getFont\<close>, \<^verbatim>\<open>newPdfDoc.embedPng\<close> or
  \<^verbatim>\<open>embedJpg\<close>, and \<^verbatim>\<open>ann.path[0].x\<close> on a draw annotation with an empty path.

  Errors of the model: \<open>TypeError\<close> is the exception JavaScript throws on reading a
  property of \<open>undefined\<close> or spreading it. \<open>EmbedFailed\<close> is a rejected embedding.
  \<open>UndefinedStored\<close> marks the places where the code, instead of failing, writes
  \<open>undefined\<close> or an empty object into an array of pages or annotations (an out-of-range
  index): the typed model has no such element and stops.
\<close>

datatype error = TypeError | UndefinedStored | EmbedFailed

datatype svg_seg = MoveTo real real | LineTo real real

datatype ('font, 'img) export_call =
  DrawImage 'img real real real real
| DrawText jstring 'font real real real real string
| DrawSvgPath "svg_seg list" real

text \<open>
  The embedding calls of the new document, \<open>None\<close> when the promise rejects. \<open>getFont\<close>
  keeps the embedded fonts in \<open>fontCache\<close>, a map from font identifiers to handles that
  lives as long as one export.
\<close>

record ('font, 'img) embedder =
  embedFont :: "string \<Rightarrow> 'font option"
  embedPng :: "string \<Rightarrow> 'img option"
  embedJpg :: "string \<Rightarrow> 'img option"

definition getFont ::
  "('font, 'img) embedder \<Rightarrow> (string \<rightharpoonup> 'font) \<Rightarrow> string
   \<Rightarrow> error + 'font \<times> (string \<rightharpoonup> 'font)" where
  "getFont newPdfDoc fontCache fontId =
     (case fontCache fontId of
        Some font \<Rightarrow> Inr (font, fontCache)
      | None \<Rightarrow>
          (case embedFont newPdfDoc fontId of
             None \<Rightarrow> Inl EmbedFailed
           | Some font \<Rightarrow> Inr (font, fontCache(fontId \<mapsto> font))))"

fun str_includes :: "string \<Rightarrow> string \<Rightarrow> bool" where
  "str_includes s sub =
     (take (length sub) s = sub \<or> (case s of [] \<Rightarrow> False | _ # r \<Rightarrow> str_includes r sub))"

fun replace_first :: "string \<Rightarrow> string \<Rightarrow> string \<Rightarrow> string" where
  "replace_first s sub new =
     (if take (length sub) s = sub then new @ drop (length sub) s
      else (case s of [] \<Rightarrow> [] | c # r \<Rightarrow> c # replace_first r sub new))"

definition export_fontId :: "text_annotation \<Rightarrow> string" where
  "export_fontId ann =
     (if t_bold ann
      then (if str_includes (t_font ann) ''Bold'' then t_font ann else t_font ann @ ''-Bold'')
      else replace_first (t_font ann) ''-Bold'' '''')"

text \<open>\<^verbatim>\<open>ann.imageData.startsWith('data:image/png')\<close>\<close>

definition isPng :: "string \<Rightarrow> bool" where
  "isPng imageData = (take 14 imageData = ''data:image/png'')"

fun export_annotation ::
  "('font, 'img) embedder \<Rightarrow> real \<Rightarrow> (string \<rightharpoonup> 'font) \<Rightarrow> annotation
   \<Rightarrow> error + ('font, 'img) export_call \<times> (string \<rightharpoonup> 'font)" where
  "export_annotation newPdfDoc pdfPageHeight fontCache (Image ann) =
     (case (if isPng (i_imageData ann) then embedPng newPdfDoc (i_imageData ann)
            else embedJpg newPdfDoc (i_imageData ann)) of
        None \<Rightarrow> Inl EmbedFailed
      | Some imageBytes \<Rightarrow>
          Inr (DrawImage imageBytes (i_x ann) (pdfPageHeight - i_y ann - i_height ann)
                 (i_width ann) (i_height ann), fontCache))"
| "export_annotation newPdfDoc pdfPageHeight fontCache (Text ann) =
     (case getFont newPdfDoc fontCache (export_fontId ann) of
        Inl e \<Rightarrow> Inl e
      | Inr (pdfFont, fontCache') \<Rightarrow>
          Inr (DrawText (t_text ann) pdfFont (t_x ann) (pdfPageHeight - t_y ann - t_size ann)
                 (t_size ann) (t_size ann * 1.2) (t_color ann), fontCache'))"
| "export_annotation newPdfDoc pdfPageHeight fontCache (Draw ann) =
     (case d_path ann of
        [] \<Rightarrow> Inl TypeError
      | p # ps \<Rightarrow>
          Inr (DrawSvgPath
                 (MoveTo (pt_x p) (pdfPageHeight - pt_y p)
                  # map (\<lambda>q. LineTo (pt_x q) (pdfPageHeight - pt_y q)) ps)
                 (d_lineWidth ann), fontCache))"

text \<open>The calls of one page, in list order; the first throw ends the export.\<close>

fun export_page ::
  "('font, 'img) embedder \<Rightarrow> real \<Rightarrow> (string \<rightharpoonup> 'font) \<Rightarrow> annotation list
   \<Rightarrow> error + ('font, 'img) export_call list \<times> (string \<rightharpoonup> 'font)" where
  "export_page newPdfDoc pdfPageHeight fontCache [] = Inr ([], fontCache)"
| "export_page newPdfDoc pdfPageHeight fontCache (ann # anns) =
     (case export_annotation newPdfDoc pdfPageHeight fontCache ann of
        Inl e \<Rightarrow> Inl e
      | Inr (c, fontCache') \<Rightarrow>
          (case export_page newPdfDoc pdfPageHeight fontCache' anns of
             Inl e \<Rightarrow> Inl e
           | Inr (cs, fontCache'') \<Rightarrow> Inr (c # cs, fontCache'')))"

text \<open>
  The loop over the pages: the heights are those of the pages of the new document, in
  page order; a page without an annotation list is skipped. \<open>fontCache\<close> is the cache as
  the page numbers and the watermark left it.
\<close>

fun export_pages ::
  "('font, 'img) embedder \<Rightarrow> (string \<rightharpoonup> 'font) \<Rightarrow> real list \<Rightarrow> annotation list list
   \<Rightarrow> error + ('font, 'img) export_call list list \<times> (string \<rightharpoonup> 'font)" where
  "export_pages newPdfDoc fontCache [] allAnns = Inr ([], fontCache)"
| "export_pages newPdfDoc fontCache (pdfPageHeight # hs) allAnns =
     (case export_page newPdfDoc pdfPageHeight fontCache
             (case allAnns of [] \<Rightarrow> [] | pageAnns # _ \<Rightarrow> pageAnns) of
        Inl e \<Rightarrow> Inl e
      | Inr (cs, fontCache') \<Rightarrow>
          (case export_pages newPdfDoc fontCache' hs (tl allAnns) of
             Inl e \<Rightarrow> Inl e
           | Inr (css, fontCache'') \<Rightarrow> Inr (cs # css, fontCache'')))"

text \<open>
  The coordinates a call hands to the library: the position argument of an image or a
  text, the points of a path.
\<close>

fun call_points :: "('font, 'img) export_call \<Rightarrow> (real \<times> real) list" where
  "call_points (DrawImage im x y w h) = [(x, y)]"
| "call_points (DrawText s f x y sz lh c) = [(x, y)]"
| "call_points (DrawSvgPath segs lw) =
     map (\<lambda>seg. case seg of MoveTo x y \<Rightarrow> (x, y) | LineTo x y \<Rightarrow> (x, y)) segs"

declare str_includes.simps [simp del]

declare replace_first.simps [simp del]

section \<open>JavaScript array primitives\<close>

text \<open>\<open>xs.indexOf(v)\<close>: the first index holding \<open>v\<close>, or \<open>-1\<close>.\<close>

fun indexOf_from :: "int \<Rightarrow> 'a list \<Rightarrow> 'a \<Rightarrow> int" where
  "indexOf_from i [] v = - 1"
| "indexOf_from i (x # xs) v = (if x = v then i else indexOf_from (i + 1) xs v)"

definition indexOf :: "'a list \<Rightarrow> 'a \<Rightarrow> int" where
  "indexOf xs v = indexOf_from 0 xs v"

text \<open>\<open>xs[i]\<close>: \<open>None\<close> is JavaScript's \<open>undefined\<close> (index out of range).\<close>

definition js_nth :: "'a list \<Rightarrow> int \<Rightarrow> 'a option" where
  "js_nth xs i = (if 0 \<le> i \<and> i < int (length xs) then Some (xs ! nat i) else None)"

text \<open>
  \<open>xs.splice(start, deleteCount, ...items)\<close>: a negative start counts from the end, both
  numbers are clamped to the array; the result is the removed elements and the new array.
\<close>

definition splice :: "int \<Rightarrow> int \<Rightarrow> 'a list \<Rightarrow> 'a list \<Rightarrow> 'a list \<times> 'a list" where
  "splice start deleteCount items xs =
     (let len = int (length xs);
          s = (if start < 0 then max (len + start) 0 else min start len);
          d = min (max deleteCount 0) (len - s)
      in (take (nat d) (drop (nat s) xs),
          take (nat s) xs @ items @ drop (nat (s + d)) xs))"

section \<open>Page reordering (reorderPages)\<close>

text \<open>
  Both updaters of \<open>reorderPages\<close> run the same two statements on a copy of their array:
  \<^verbatim>\<open>[moved] = arr.splice(dragIndex, 1); arr.splice(adjustedDropIndex, 0, moved);\<close>
  When \<open>dragIndex\<close> is not below the length nothing is removed and \<open>undefined\<close> is inserted.
\<close>

definition move_entry :: "int \<Rightarrow> int \<Rightarrow> 'a list \<Rightarrow> error + 'a list" where
  "move_entry dragIndex adjustedDropIndex xs =
     (case splice dragIndex 1 [] xs of
        (removed, rest) \<Rightarrow>
          (case removed of
             [] \<Rightarrow> Inl UndefinedStored
           | moved # _ \<Rightarrow> Inr (snd (splice adjustedDropIndex 0 [moved] rest))))"

definition reorderPages ::
  "int \<Rightarrow> int \<Rightarrow> ('doc, 'pdf) state \<Rightarrow> error + ('doc, 'pdf) state" where
  "reorderPages dragIndex dropIndex st =
     (if dropIndex = dragIndex \<or> dropIndex = dragIndex + 1 then Inr st
      else
        let adjustedDropIndex = (if dragIndex < dropIndex then dropIndex - 1 else dropIndex)
        in (case move_entry dragIndex adjustedDropIndex (pageOrder st) of
              Inl e \<Rightarrow> Inl e
            | Inr newOrder \<Rightarrow>
                (case move_entry dragIndex adjustedDropIndex (annotations st) of
                   Inl e \<Rightarrow> Inl e
                 | Inr newAnns \<Rightarrow> Inr (st\<lparr> pageOrder := newOrder, annotations := newAnns \<rparr>))))"

section \<open>History (addAnnotation, onDeleteKeyPressed, undo, redo)\<close>

text \<open>
  A snapshot is \<^verbatim>\<open>JSON.parse(JSON.stringify(this.annotations()))\<close>, a deep copy: in a
  model of values, the annotation model itself. The repainting call \<open>drawAnnotations\<close>
  reads the state and is left out of every handler.
\<close>

definition pageIndex_of :: "('doc, 'pdf) state \<Rightarrow> int" where
  "pageIndex_of st = indexOf (pageOrder st) (currentPageNum st)"

definition addAnnotation ::
  "annotation \<Rightarrow> ('doc, 'pdf) state \<Rightarrow> error + ('doc, 'pdf) state" where
  "addAnnotation annotation st =
     (let st1 = st\<lparr> undoStack := undoStack st @ [annotations st], redoStack := [] \<rparr>;
          pageIndex = pageIndex_of st1
      in if pageIndex > - 1
         then (case js_nth (annotations st1) pageIndex of
                 None \<Rightarrow> Inl TypeError
               | Some pageAnns \<Rightarrow>
                   Inr (st1\<lparr> annotations :=
                          (annotations st1)[nat pageIndex := pageAnns @ [annotation]] \<rparr>))
         else Inr st1)"

definition undo :: "('doc, 'pdf) state \<Rightarrow> ('doc, 'pdf) state" where
  "undo st =
     (if \<not> (length (undoStack st) > 0) then st
      else st\<lparr> redoStack := redoStack st @ [annotations st],
               annotations := last (undoStack st),
               undoStack := butlast (undoStack st),
               selectedAnnotationIndex := - 1 \<rparr>)"

definition redo :: "('doc, 'pdf) state \<Rightarrow> ('doc, 'pdf) state" where
  "redo st =
     (if \<not> (length (redoStack st) > 0) then st
      else st\<lparr> undoStack := undoStack st @ [annotations st],
               annotations := last (redoStack st),
               redoStack := butlast (redoStack st),
               selectedAnnotationIndex := - 1 \<rparr>)"

section \<open>Pointer move (onMouseMove)\<close>

text \<open>
  The argument \<open>pos\<close> is the result of \<open>getMousePos\<close>: \<open>None\<close> when the canvas is missing.
  An annotation index outside the page's list makes the code store an empty object there.
  \<open>drag_annotation\<close> is the body of the updater between the copy of the selected
  annotation and its write-back: the two branches on \<open>dragMode\<close> and the annotation type.
\<close>

definition drag_annotation :: "drag_mode \<Rightarrow> rect \<Rightarrow> real \<Rightarrow> real \<Rightarrow> annotation \<Rightarrow> annotation" where
  "drag_annotation mode startAnn dx dy ann =
     (case ann of
        Image a \<Rightarrow>
          (if mode = DragMove
           then Image (a\<lparr> i_x := r_x startAnn + dx, i_y := r_y startAnn + dy \<rparr>)
           else if mode = DragResize
           then (let newWidth = r_width startAnn + dx
                 in if newWidth > 10
                    then Image (a\<lparr> i_width := newWidth,
                                   i_height := newWidth * i_originalAspectRatio a \<rparr>)
                    else Image a)
           else Image a)
      | Text a \<Rightarrow>
          (if mode = DragMove
           then Text (a\<lparr> t_x := r_x startAnn + dx, t_y := r_y startAnn + dy \<rparr>)
           else Text a)
      | Draw a \<Rightarrow> Draw a)"

definition onMouseMove ::
  "point option \<Rightarrow> ('doc, 'pdf) state \<Rightarrow> error + ('doc, 'pdf) state" where
  "onMouseMove pos st =
     (if dragMode st = DragNone \<and> \<not> isDrawing st then Inr st
      else case pos of
        None \<Rightarrow> Inr st
      | Some p \<Rightarrow>
          if dragMode st \<noteq> DragNone
          then (let posUnscaled = toDocument st p;
                    annIndex = selectedAnnotationIndex st;
                    pageIndex = pageIndex_of st
                in if annIndex = - 1 \<or> pageIndex = - 1 then Inr st
                   else
                     let dx = pt_x posUnscaled - pt_x (dragStartPos st);
                         dy = pt_y posUnscaled - pt_y (dragStartPos st)
                     in (case js_nth (annotations st) pageIndex of
                           None \<Rightarrow> Inl TypeError
                         | Some pageAnns \<Rightarrow>
                             (case js_nth pageAnns annIndex of
                                None \<Rightarrow> Inl UndefinedStored
                              | Some ann \<Rightarrow>
                                  Inr (st\<lparr> annotations :=
                                         (annotations st)[nat pageIndex :=
                                            pageAnns[nat annIndex :=
                                              drag_annotation (dragMode st) (dragStartAnn st)
                                                dx dy ann]] \<rparr>))))
          else Inr (st\<lparr> currentDrawingPath := currentDrawingPath st @ [toDocument st p] \<rparr>))"

text \<open>The computed signal \<open>selectedAnnotation\<close>; \<open>None\<close> is \<open>null\<close> or \<open>undefined\<close>.\<close>

definition selectedAnnotation :: "('doc, 'pdf) state \<Rightarrow> error + annotation option" where
  "selectedAnnotation st =
     (if pageIndex_of st > - 1 \<and> selectedAnnotationIndex st > - 1
      then (case js_nth (annotations st) (pageIndex_of st) of
              None \<Rightarrow> Inl TypeError
            | Some pageAnns \<Rightarrow> Inr (js_nth pageAnns (selectedAnnotationIndex st)))
      else Inr None)"

section \<open>Text editing (measureText, finalizeTextAnnotation, cancelTextAnnotation)\<close>

text \<open>
  \<open>String.prototype.trim\<close> removes the ECMAScript white space and line terminator code
  units from both ends.
\<close>

definition is_ws :: "nat \<Rightarrow> bool" where
  "is_ws c =
     (c = 9 \<or> c = 10 \<or> c = 11 \<or> c = 12 \<or> c = 13 \<or> c = 32 \<or> c = 160 \<or> c = 5760
      \<or> (8192 \<le> c \<and> c \<le> 8202) \<or> c = 8232 \<or> c = 8233 \<or> c = 8239 \<or> c = 8287
      \<or> c = 12288 \<or> c = 65279)"

definition trim :: "jstring \<Rightarrow> jstring" where
  "trim s = rev (dropWhile is_ws (rev (dropWhile is_ws s)))"

text \<open>\<open>text.split('\n')\<close>: the first line and the lines after it (there is always one).\<close>

fun split_lines :: "jstring \<Rightarrow> jstring \<times> jstring list" where
  "split_lines [] = ([], [])"
| "split_lines (c # cs) =
     (case split_lines cs of
        (l, ls) \<Rightarrow> if c = 10 then ([], l # ls) else (c # l, ls))"

definition getCanvasFontFamily :: "string \<Rightarrow> string" where
  "getCanvasFontFamily fontId =
     (if str_includes fontId ''Helvetica'' then ''Arial, Helvetica, sans-serif''
      else if str_includes fontId ''Times'' then ''\"Times New Roman\", Times, serif''
      else if str_includes fontId ''Courier'' then ''\"Courier New\", Courier, monospace''
      else ''Arial, Helvetica, sans-serif'')"

text \<open>\<^verbatim>\<open>window.devicePixelRatio || 1\<close>\<close>

definition pixelRatio_of :: "real \<Rightarrow> real" where
  "pixelRatio_of devicePixelRatio = (if devicePixelRatio = 0 then 1 else devicePixelRatio)"

text \<open>
  The drawing canvas measures one line of text under a font given by its weight, its pixel
  size and its family: \<open>context.measureText(line).width\<close>. It is a parameter of the model,
  \<open>None\<close> when the canvas is missing.
\<close>

type_synonym measurer = "bool \<Rightarrow> real \<Rightarrow> string \<Rightarrow> jstring \<Rightarrow> real"

definition measureText ::
  "measurer option \<Rightarrow> real \<Rightarrow> ('doc, 'pdf) state \<Rightarrow> jstring \<Rightarrow> text_settings \<Rightarrow> real \<times> real" where
  "measureText drawCanvas devicePixelRatio st txt settings =
     (case drawCanvas of
        None \<Rightarrow> (100, ts_size settings)
      | Some measureLine \<Rightarrow>
          (case split_lines txt of
             (l, ls) \<Rightarrow>
               let currentScale = scale st * pixelRatio_of devicePixelRatio;
                   lineWidth = measureLine (ts_bold settings) (ts_size settings * currentScale)
                                 (getCanvasFontFamily (ts_font settings));
                   lineHeight = ts_size settings * 1.2 * currentScale;
                   height = real (length (l # ls)) * lineHeight;
                   width = fold max (map lineWidth ls) (lineWidth l)
               in (width, height)))"

text \<open>
  In \<open>finalizeTextAnnotation\<close> the annotation to edit is looked up by the very expression
  of the computed signal \<open>selectedAnnotation\<close>, which the model reuses; the spread
  \<^verbatim>\<open>{...annToEdit, text, ...settings, width, height}\<close> keeps the position and
  replaces text, font, size, colour, weight and bounding box.
\<close>

definition cancelTextAnnotation :: "('doc, 'pdf) state \<Rightarrow> ('doc, 'pdf) state" where
  "cancelTextAnnotation st = st\<lparr> isEditingText := False, textEditingState := None \<rparr>"

definition finalizeTextAnnotation ::
  "measurer option \<Rightarrow> real \<Rightarrow> ('doc, 'pdf) state \<Rightarrow> error + ('doc, 'pdf) state" where
  "finalizeTextAnnotation drawCanvas devicePixelRatio st =
     (if \<not> isEditingText st then Inr st
      else case textEditingState st of
        None \<Rightarrow> Inr (cancelTextAnnotation st)
      | Some state \<Rightarrow>
          if trim (te_text state) = [] then Inr (cancelTextAnnotation st)
          else
            let settings = textSettings st;
                (width, height) = measureText drawCanvas devicePixelRatio st (te_text state) settings;
                trimmedText = trim (te_text state);
                editIndex = selectedAnnotationIndex st;
                pageIndex = pageIndex_of st
            in (case selectedAnnotation st of
                  Inl e \<Rightarrow> Inl e
                | Inr annToEdit \<Rightarrow>
                    let totalScale = scale st * pixelRatio_of devicePixelRatio
                    in (case annToEdit of
                          Some (Text a) \<Rightarrow>
                            (case js_nth (annotations st) pageIndex of
                               None \<Rightarrow> Inl TypeError
                             | Some pageAnns \<Rightarrow>
                                 Inr (st\<lparr> undoStack := undoStack st @ [annotations st],
                                          redoStack := [],
                                          annotations :=
                                            (annotations st)[nat pageIndex :=
                                               pageAnns[nat editIndex :=
                                                 Text (a\<lparr> t_text := trimmedText,
                                                           t_font := ts_font settings,
                                                           t_size := ts_size settings,
                                                           t_color := ts_color settings,
                                                           t_bold := ts_bold settings,
                                                           t_width := width / totalScale,
                                                           t_height := height / totalScale \<rparr>)]],
                                          isEditingText := False,
                                          textEditingState := None \<rparr>))
                        | _ \<Rightarrow>
                            (case addAnnotation
                                    (Text \<lparr> t_x = te_x state / scale st,
                                            t_y = te_y state / scale st,
                                            t_text = trimmedText,
                                            t_size = ts_size settings,
                                            t_color = ts_color settings,
                                            t_font = ts_font settings,
                                            t_bold = ts_bold settings,
                                            t_width = width / totalScale,
                                            t_height = height / totalScale \<rparr>) st of
                               Inl e \<Rightarrow> Inl e
                             | Inr st' \<Rightarrow>
                                 Inr (st'\<lparr> isEditingText := False,
                                           textEditingState := None \<rparr>)))))"

section \<open>Structural page operations\<close>

text \<open>
  What the user sees besides the page: the confirmation dialog and the alerts. The
  answer to the dialog, had it been shown, is the parameter \<open>answer\<close> of an operation.
\<close>

datatype alert =
  LoadFailed | LastPageNotDeletable | RotateFailed | DeleteFailed | DuplicateFailed
| InsertFailed

datatype ui_event = ConfirmPrompt | Alert alert

text \<open>
  The two libraries, as the operations use them. \<open>None\<close> is a call that throws or a
  promise that rejects; a call that returns a document returns the mutated \<open>pdfLibDoc\<close>.
  \<open>lib_load\<close> is \<^verbatim>\<open>Promise.all([pdfjsLib.getDocument(..).promise, PDFDocument.load(..)])\<close>,
  \<open>lib_rotate d i degrees\<close> is \<^verbatim>\<open>d.getPage(i).setRotation(degrees(angle + degrees))\<close>,
  \<open>lib_duplicate d i\<close> is \<^verbatim>\<open>copyPages(d, [i])\<close> then \<^verbatim>\<open>insertPage(i + 1, copy)\<close>,
  \<open>lib_insert d buffer i\<close> loads the buffer, copies its pages and inserts them from \<open>i\<close> on.
\<close>

record ('doc, 'pdf, 'bytes) pdflib =
  lib_load :: "'bytes \<Rightarrow> ('pdf \<times> 'doc) option"
  lib_numPages :: "'pdf \<Rightarrow> nat"
  lib_save :: "'doc \<Rightarrow> 'bytes option"
  lib_rotate :: "'doc \<Rightarrow> int \<Rightarrow> int \<Rightarrow> 'doc option"
  lib_removePage :: "'doc \<Rightarrow> int \<Rightarrow> 'doc option"
  lib_getPageCount :: "'doc \<Rightarrow> int"
  lib_duplicate :: "'doc \<Rightarrow> int \<Rightarrow> 'doc option"
  lib_insert :: "'doc \<Rightarrow> 'bytes \<Rightarrow> int \<Rightarrow> 'doc option"

text \<open>
  \<open>loadPdf\<close>. For a new file it also resets the page-number settings, which this state
  does not hold. \<open>pageToLoad\<close> is \<open>None\<close> when the argument is absent.
\<close>

definition loadPdf ::
  "('doc, 'pdf, 'bytes) pdflib \<Rightarrow> 'bytes \<Rightarrow> bool \<Rightarrow> int option \<Rightarrow> ('doc, 'pdf) state
   \<Rightarrow> ('doc, 'pdf) state \<times> ui_event list" where
  "loadPdf lib pdfBytes isNewFile pageToLoad st =
     (let st1 = st\<lparr> isSaving := True, pdfDoc := None, pdfLibDoc := None \<rparr>
      in case lib_load lib pdfBytes of
           None \<Rightarrow> (st1\<lparr> totalPages := 0, isSaving := False \<rparr>, [Alert LoadFailed])
         | Some (pdf, pdfLib) \<Rightarrow>
             let n = lib_numPages lib pdf;
                 st2 = st1\<lparr> totalPages := int n \<rparr>;
                 st3 = (if isNewFile
                        then st2\<lparr> annotations := replicate n [],
                                  pageOrder := map (\<lambda>i. int i + 1) [0..<n],
                                  currentPageNum := (case pageToLoad of None \<Rightarrow> 1 | Some q \<Rightarrow> q),
                                  isPageNumberPanelOpen := False,
                                  undoStack := [],
                                  redoStack := [],
                                  selectedAnnotationIndex := - 1 \<rparr>
                        else st2\<lparr> currentPageNum :=
                                    (case pageToLoad of None \<Rightarrow> currentPageNum st2 | Some q \<Rightarrow> q) \<rparr>)
             in (st3\<lparr> pdfDoc := Some pdf, pdfLibDoc := Some pdfLib, isSaving := False \<rparr>, []))"

text \<open>
  \<^verbatim>\<open>if (this.annotations().some(p => p.length > 0) && !confirm(..)) return; await action();\<close>
  The dialog is shown only when some page has an annotation.
\<close>

definition confirmAndProceedWithOrganize ::
  "bool \<Rightarrow> (('doc, 'pdf) state \<Rightarrow> ('doc, 'pdf) state \<times> ui_event list)
   \<Rightarrow> ('doc, 'pdf) state \<Rightarrow> ('doc, 'pdf) state \<times> ui_event list" where
  "confirmAndProceedWithOrganize answer action st =
     (if list_ex (\<lambda>p. length p > 0) (annotations st)
      then (if \<not> answer then (st, [ConfirmPrompt])
            else (case action st of (st', evs) \<Rightarrow> (st', ConfirmPrompt # evs)))
      else action st)"

text \<open>
  The common tail of the four actions: the document has been mutated in place to \<open>d'\<close>;
  save it and reload, or show the operation's alert when \<open>save\<close> throws; \<open>finally\<close> clears
  the busy flag.
\<close>

definition save_and_reload ::
  "('doc, 'pdf, 'bytes) pdflib \<Rightarrow> alert \<Rightarrow> 'doc \<Rightarrow> int \<Rightarrow> ('doc, 'pdf) state
   \<Rightarrow> ('doc, 'pdf) state \<times> ui_event list" where
  "save_and_reload lib failed d' pageToLoad st =
     (case lib_save lib d' of
        None \<Rightarrow> (st\<lparr> pdfLibDoc := Some d', isSaving := False \<rparr>, [Alert failed])
      | Some pdfBytes \<Rightarrow>
          (case loadPdf lib pdfBytes True (Some pageToLoad) (st\<lparr> pdfLibDoc := Some d' \<rparr>) of
             (st', evs) \<Rightarrow> (st'\<lparr> isSaving := False \<rparr>, evs)))"

definition rotatePage ::
  "('doc, 'pdf, 'bytes) pdflib \<Rightarrow> bool \<Rightarrow> int \<Rightarrow> int option \<Rightarrow> ('doc, 'pdf) state
   \<Rightarrow> ('doc, 'pdf) state \<times> ui_event list" where
  "rotatePage lib answer degrees pageNumToRotate st =
     (let pageToRotate = (case pageNumToRotate of None \<Rightarrow> currentPageNum st | Some q \<Rightarrow> q)
      in confirmAndProceedWithOrganize answer
           (\<lambda>st. case pdfLibDoc st of
                    None \<Rightarrow> (st, [])
                  | Some d \<Rightarrow>
                      let st1 = st\<lparr> isSaving := True \<rparr>
                      in (case lib_rotate lib d (pageToRotate - 1) degrees of
                            None \<Rightarrow> (st1\<lparr> isSaving := False \<rparr>, [Alert RotateFailed])
                          | Some d' \<Rightarrow>
                              save_and_reload lib RotateFailed d' (currentPageNum st1) st1))
           st)"

definition deletePage ::
  "('doc, 'pdf, 'bytes) pdflib \<Rightarrow> bool \<Rightarrow> int \<Rightarrow> ('doc, 'pdf) state
   \<Rightarrow> ('doc, 'pdf) state \<times> ui_event list" where
  "deletePage lib answer pageNumToDelete st =
     (if totalPages st \<le> 1 then (st, [Alert LastPageNotDeletable])
      else confirmAndProceedWithOrganize answer
             (\<lambda>st. case pdfLibDoc st of
                      None \<Rightarrow> (st, [])
                    | Some d \<Rightarrow>
                        let st1 = st\<lparr> isSaving := True \<rparr>
                        in (case lib_removePage lib d (pageNumToDelete - 1) of
                              None \<Rightarrow> (st1\<lparr> isSaving := False \<rparr>, [Alert DeleteFailed])
                            | Some d' \<Rightarrow>
                                save_and_reload lib DeleteFailed d'
                                  (min pageNumToDelete (lib_getPageCount lib d')) st1))
             st)"

definition duplicatePage ::
  "('doc, 'pdf, 'bytes) pdflib \<Rightarrow> bool \<Rightarrow> int \<Rightarrow> ('doc, 'pdf) state
   \<Rightarrow> ('doc, 'pdf) state \<times> ui_event list" where
  "duplicatePage lib answer pageNumToDuplicate st =
     confirmAndProceedWithOrganize answer
       (\<lambda>st. case pdfLibDoc st of
                None \<Rightarrow> (st, [])
              | Some d \<Rightarrow>
                  let st1 = st\<lparr> isSaving := True \<rparr>;
                      pageIndexToDuplicate = pageNumToDuplicate - 1
                  in (case lib_duplicate lib d pageIndexToDuplicate of
                        None \<Rightarrow> (st1\<lparr> isSaving := False \<rparr>, [Alert DuplicateFailed])
                      | Some d' \<Rightarrow>
                          save_and_reload lib DuplicateFailed d' (pageIndexToDuplicate + 2) st1))
       st"

definition processAndInsertPdf ::
  "('doc, 'pdf, 'bytes) pdflib \<Rightarrow> bool \<Rightarrow> 'bytes \<Rightarrow> int \<Rightarrow> ('doc, 'pdf) state
   \<Rightarrow> ('doc, 'pdf) state \<times> ui_event list" where
  "processAndInsertPdf lib answer pdfBuffer insertionIndex st =
     confirmAndProceedWithOrganize answer
       (\<lambda>st. let st1 = st\<lparr> isSaving := True \<rparr>
             in case pdfLibDoc st1 of
                  None \<Rightarrow> (st1\<lparr> isSaving := False \<rparr>, [])
                | Some d \<Rightarrow>
                    (case lib_insert lib d pdfBuffer insertionIndex of
                       None \<Rightarrow> (st1\<lparr> isSaving := False \<rparr>, [Alert InsertFailed])
                     | Some d' \<Rightarrow>
                         save_and_reload lib InsertFailed d' (insertionIndex + 1) st1))
       st"

text \<open>
  \<open>isPdfLoaded\<close> is \<^verbatim>\<open>computed(() => !!this.pdfDoc())\<close>. The Delete and Backspace keys
  call \<open>onDeleteKeyPressed\<close>.
\<close>

definition isPdfLoaded :: "('doc, 'pdf) state \<Rightarrow> bool" where
  "isPdfLoaded st = (pdfDoc st \<noteq> None)"

definition onDeleteKeyPressed ::
  "('doc, 'pdf, 'bytes) pdflib \<Rightarrow> bool \<Rightarrow> ('doc, 'pdf) state
   \<Rightarrow> error + ('doc, 'pdf) state \<times> ui_event list" where
  "onDeleteKeyPressed lib answer st =
     (let annIndex = selectedAnnotationIndex st
      in if annIndex > - 1
         then
           (let st1 = st\<lparr> undoStack := undoStack st @ [annotations st], redoStack := [] \<rparr>;
                pageIndex = pageIndex_of st1
            in if pageIndex = - 1
               then Inr (st1\<lparr> selectedAnnotationIndex := - 1 \<rparr>, [])
               else (case js_nth (annotations st1) pageIndex of
                       None \<Rightarrow> Inl TypeError
                     | Some pageAnns \<Rightarrow>
                         Inr (st1\<lparr> annotations :=
                                     (annotations st1)[nat pageIndex :=
                                        snd (splice annIndex 1 [] pageAnns)],
                                   selectedAnnotationIndex := - 1 \<rparr>, [])))
         else if activeTab st = TabOrganize \<and> isPdfLoaded st \<and> totalPages st > 1
         then Inr (deletePage lib answer (currentPageNum st) st)
         else Inr (st, []))"

section \<open>Committed mutations\<close>

text \<open>
  Three handlers change the annotation model through the history: \<open>addAnnotation\<close> (a new
  drawing, image, signature or text), \<open>onDeleteKeyPressed\<close> with a selection, and
  \<open>finalizeTextAnnotation\<close> with a text that is not blank. Between two of them the user
  selects, picks tools, types: a step is such a change of the ephemeral state followed by
  one handler. \<open>run\<close> gives the states after each step, or \<open>None\<close> when a handler throws or
  takes a branch that commits nothing.
\<close>

datatype mutation = MAdd annotation | MDeleteKey | MFinalizeText

record ('doc, 'pdf, 'bytes) env =
  env_lib :: "('doc, 'pdf, 'bytes) pdflib"
  env_answer :: bool
  env_drawCanvas :: "measurer option"
  env_devicePixelRatio :: real

fun apply_mutation ::
  "('doc, 'pdf, 'bytes) env \<Rightarrow> mutation \<Rightarrow> ('doc, 'pdf) state \<Rightarrow> error + ('doc, 'pdf) state" where
  "apply_mutation env (MAdd a) st = addAnnotation a st"
| "apply_mutation env MDeleteKey st =
     (case onDeleteKeyPressed (env_lib env) (env_answer env) st of
        Inl e \<Rightarrow> Inl e
      | Inr (st', evs) \<Rightarrow> Inr st')"
| "apply_mutation env MFinalizeText st =
     finalizeTextAnnotation (env_drawCanvas env) (env_devicePixelRatio env) st"

fun commits :: "mutation \<Rightarrow> ('doc, 'pdf) state \<Rightarrow> bool" where
  "commits (MAdd a) st = True"
| "commits MDeleteKey st = (selectedAnnotationIndex st > - 1)"
| "commits MFinalizeText st =
     (isEditingText st \<and>
      (case textEditingState st of None \<Rightarrow> False | Some state \<Rightarrow> trim (te_text state) \<noteq> []))"

definition ephemeral :: "(('doc, 'pdf) state \<Rightarrow> ('doc, 'pdf) state) \<Rightarrow> bool" where
  "ephemeral f =
     (\<forall>st. annotations (f st) = annotations st \<and> undoStack (f st) = undoStack st
           \<and> redoStack (f st) = redoStack st)"

fun run ::
  "('doc, 'pdf, 'bytes) env \<Rightarrow> ((('doc, 'pdf) state \<Rightarrow> ('doc, 'pdf) state) \<times> mutation) list
   \<Rightarrow> ('doc, 'pdf) state \<Rightarrow> ('doc, 'pdf) state list option" where
  "run env [] st = Some []"
| "run env ((f, m) # steps) st =
     (if commits m (f st)
      then (case apply_mutation env m (f st) of
              Inl e \<Rightarrow> None
            | Inr st' \<Rightarrow>
                (case run env steps st' of
                   None \<Rightarrow> None
                 | Some sts \<Rightarrow> Some (st' # sts)))
      else None)"

section \<open>Watermark: preview (drawWatermark) and export (savePdf)\<close>

text \<open>
  Both backends keep a current transformation matrix \<open>(a, b, c, d, e, f)\<close>, which takes the
  point \<open>(x, y)\<close> to \<open>(a x + c y + e, b x + d y + f)\<close>; \<open>translate\<close> and \<open>rotate\<close> multiply it
  from the right. The canvas has its origin at the top left and y pointing down, the page
  of the exported document its origin at the bottom left and y pointing up.
\<close>

record matrix =
  m_a :: real
  m_b :: real
  m_c :: real
  m_d :: real
  m_e :: real
  m_f :: real

definition m_identity :: matrix where
  "m_identity = \<lparr> m_a = 1, m_b = 0, m_c = 0, m_d = 1, m_e = 0, m_f = 0 \<rparr>"

definition m_mul :: "matrix \<Rightarrow> matrix \<Rightarrow> matrix" where
  "m_mul M N =
     \<lparr> m_a = m_a M * m_a N + m_c M * m_b N,
       m_b = m_b M * m_a N + m_d M * m_b N,
       m_c = m_a M * m_c N + m_c M * m_d N,
       m_d = m_b M * m_c N + m_d M * m_d N,
       m_e = m_a M * m_e N + m_c M * m_f N + m_e M,
       m_f = m_b M * m_e N + m_d M * m_f N + m_f M \<rparr>"

definition m_translate :: "real \<Rightarrow> real \<Rightarrow> matrix \<Rightarrow> matrix" where
  "m_translate tx ty M =
     m_mul M \<lparr> m_a = 1, m_b = 0, m_c = 0, m_d = 1, m_e = tx, m_f = ty \<rparr>"

definition m_rotate :: "real \<Rightarrow> matrix \<Rightarrow> matrix" where
  "m_rotate angle M =
     m_mul M \<lparr> m_a = cos angle, m_b = sin angle, m_c = - sin angle, m_d = cos angle,
               m_e = 0, m_f = 0 \<rparr>"

definition m_apply :: "matrix \<Rightarrow> real \<times> real \<Rightarrow> real \<times> real" where
  "m_apply M p = (m_a M * fst p + m_c M * snd p + m_e M, m_b M * fst p + m_d M * snd p + m_f M)"

record watermark_settings =
  wm_visible :: bool
  wm_text :: jstring
  wm_font :: string
  wm_size :: real
  wm_color :: string
  wm_opacity :: real

text \<open>The initial value of the signal \<open>watermarkSettings\<close>; the text is \<open>Sample\<close>.\<close>

definition default_watermark :: watermark_settings where
  "default_watermark =
     \<lparr> wm_visible = False, wm_text = [83, 97, 109, 112, 108, 101], wm_font = ''Helvetica-Bold'',
       wm_size = 100, wm_color = ''#ff0000'', wm_opacity = 0.5 \<rparr>"

text \<open>
  The preview. \<open>drawCanvas\<close> is the size of the drawing canvas in device pixels, \<open>None\<close>
  when it is missing. The result is the one \<open>fillText\<close> call, with the state of the context
  at that moment: text aligned \<open>center\<close> on the baseline \<open>middle\<close> at the anchor.
\<close>

record canvas_fillText =
  cf_transform :: matrix
  cf_globalAlpha :: real
  cf_bold :: bool
  cf_fontPx :: real
  cf_fontFamily :: string
  cf_fillStyle :: string
  cf_text :: jstring
  cf_x :: real
  cf_y :: real

definition drawWatermark ::
  "watermark_settings \<Rightarrow> (real \<times> real) option \<Rightarrow> real \<Rightarrow> ('doc, 'pdf) state
   \<Rightarrow> canvas_fillText option" where
  "drawWatermark settings drawCanvas devicePixelRatio st =
     (if \<not> wm_visible settings \<or> wm_text settings = [] then None
      else case drawCanvas of
        None \<Rightarrow> None
      | Some (width, height) \<Rightarrow>
          let pixelRatio = pixelRatio_of devicePixelRatio;
              centerX = width / 2;
              centerY = height / 2
          in Some \<lparr> cf_transform =
                      m_translate (- centerX) (- centerY)
                        (m_rotate (- pi / 4) (m_translate centerX centerY m_identity)),
                    cf_globalAlpha = wm_opacity settings,
                    cf_bold = str_includes (wm_font settings) ''Bold'',
                    cf_fontPx = wm_size settings * (scale st / 1.5) * pixelRatio,
                    cf_fontFamily = getCanvasFontFamily (wm_font settings),
                    cf_fillStyle = wm_color settings,
                    cf_text = wm_text settings,
                    cf_x = centerX,
                    cf_y = centerY \<rparr>)"

text \<open>
  \<open>renderPage\<close> sizes both canvases to the viewport of the page at the scale
  \<^verbatim>\<open>this.scale() * pixelRatio\<close>: a page of \<open>w\<close> by \<open>h\<close> points gets that many device
  pixels per point.
\<close>

definition canvas_of_page :: "real \<times> real \<Rightarrow> real \<Rightarrow> ('doc, 'pdf) state \<Rightarrow> real \<times> real" where
  "canvas_of_page pageSize devicePixelRatio st =
     (fst pageSize * (scale st * pixelRatio_of devicePixelRatio),
      snd pageSize * (scale st * pixelRatio_of devicePixelRatio))"

text \<open>
  The export. The embedded font measures the text: \<open>widthOfTextAtSize\<close>, and \<open>heightAtSize\<close>
  with or without its option \<open>descender\<close>. The result is the \<open>drawText\<close> call of one page with
  the matrix set up by \<open>translate\<close> and \<open>rotateDegrees(45)\<close>.
\<close>

record font_metrics =
  widthOfTextAtSize :: "jstring \<Rightarrow> real \<Rightarrow> real"
  heightAtSize :: "real \<Rightarrow> bool option \<Rightarrow> real"

record pdf_drawText =
  pd_transform :: matrix
  pd_text :: jstring
  pd_x :: real
  pd_y :: real
  pd_size :: real
  pd_color :: string
  pd_opacity :: real

definition exportWatermark ::
  "watermark_settings \<Rightarrow> font_metrics \<Rightarrow> real \<times> real \<Rightarrow> pdf_drawText option" where
  "exportWatermark watermark watermarkFont pageSize =
     (if wm_visible watermark \<and> wm_text watermark \<noteq> []
      then
        (let width = fst pageSize;
             height = snd pageSize;
             fontSize = wm_size watermark;
             textWidth = widthOfTextAtSize watermarkFont (wm_text watermark) fontSize;
             ascent = heightAtSize watermarkFont fontSize None;
             totalHeight = heightAtSize watermarkFont fontSize (Some True);
             descent = totalHeight - ascent;
             yOffset = - (ascent - descent) / 2
         in Some \<lparr> pd_transform =
                     m_rotate (45 * pi / 180) (m_translate (width / 2) (height / 2) m_identity),
                   pd_text = wm_text watermark,
                   pd_x = - textWidth / 2,
                   pd_y = yOffset,
                   pd_size = fontSize,
                   pd_color = wm_color watermark,
                   pd_opacity = wm_opacity watermark \<rparr>)
      else None)"

text \<open>
  Where a point of the watermark is seen on the page, in points from the top left corner
  of the page, y down. In the preview the point lies \<open>(u, v)\<close> canvas units right of and
  below the anchor of the text; the canvas shows the page at \<open>scale * pixelRatio\<close> device
  pixels per point. In the export the point lies \<open>(u, v)\<close> units right of and below the
  origin of the rotated frame, around which the text is centred; the page is \<open>height\<close> high.
\<close>

definition preview_seen ::
  "canvas_fillText \<Rightarrow> real \<Rightarrow> ('doc, 'pdf) state \<Rightarrow> real \<times> real \<Rightarrow> real \<times> real" where
  "preview_seen c devicePixelRatio st p =
     (case m_apply (cf_transform c) (cf_x c + fst p, cf_y c + snd p) of
        (X, Y) \<Rightarrow> (X / (scale st * pixelRatio_of devicePixelRatio),
                    Y / (scale st * pixelRatio_of devicePixelRatio)))"

definition export_seen :: "pdf_drawText \<Rightarrow> real \<Rightarrow> real \<times> real \<Rightarrow> real \<times> real" where
  "export_seen e height p =
     (case m_apply (pd_transform e) (fst p, - snd p) of (X, Y) \<Rightarrow> (X, height - Y))"

section \<open>A small instance of the two libraries\<close>

text \<open>
  To run the structural operations on concrete documents: a document is the list of the
  rotation angles of its pages, the rasterizer's handle and the saved bytes are the same
  list, and a page index out of range makes the call throw.
\<close>

definition list_lib :: "(int list, int list, int list) pdflib" where
  "list_lib =
     \<lparr> lib_load = (\<lambda>bytes. Some (bytes, bytes)),
       lib_numPages = length,
       lib_save = Some,
       lib_rotate = (\<lambda>d i degrees.
          if 0 \<le> i \<and> i < int (length d) then Some (d[nat i := d ! nat i + degrees]) else None),
       lib_removePage = (\<lambda>d i.
          if 0 \<le> i \<and> i < int (length d) then Some (take (nat i) d @ drop (nat i + 1) d)
          else None),
       lib_getPageCount = (\<lambda>d. int (length d)),
       lib_duplicate = (\<lambda>d i.
          if 0 \<le> i \<and> i < int (length d)
          then Some (take (nat i + 1) d @ [d ! nat i] @ drop (nat i + 1) d) else None),
       lib_insert = (\<lambda>d bytes i.
          if 0 \<le> i \<and> i \<le> int (length d)
          then Some (take (nat i) d @ bytes @ drop (nat i) d) else None) \<rparr>"

definition list_env :: "(int list, int list, int list) env" where
  "list_env =
     \<lparr> env_lib = list_lib, env_answer = True, env_drawCanvas = None,
       env_devicePixelRatio = 1 \<rparr>"

section \<open>Auxiliary definitions and example inputs\<close>

text \<open>
  What an annotation needs to be exported: its font is in the cache or can be embedded,
  its image can be embedded, its path has a first point.
\<close>

fun exportable :: "('font, 'img) embedder \<Rightarrow> (string \<rightharpoonup> 'font) \<Rightarrow> annotation \<Rightarrow> bool" where
  "exportable newPdfDoc fontCache (Image ann) =
     (case (if isPng (i_imageData ann) then embedPng newPdfDoc (i_imageData ann)
            else embedJpg newPdfDoc (i_imageData ann)) of
        None \<Rightarrow> False
      | Some imageBytes \<Rightarrow> True)"
| "exportable newPdfDoc fontCache (Text ann) =
     (case fontCache (export_fontId ann) of
        Some font \<Rightarrow> True
      | None \<Rightarrow> (case embedFont newPdfDoc (export_fontId ann) of None \<Rightarrow> False | Some font \<Rightarrow> True))"
| "exportable newPdfDoc fontCache (Draw ann) = (case d_path ann of [] \<Rightarrow> False | p # ps \<Rightarrow> True)"

text \<open>
  An embedder for the examples: it embeds the fourteen standard font names under their
  own name and every image under its payload.
\<close>

definition standard_embedder :: "(string, string) embedder" where
  "standard_embedder =
     \<lparr> embedFont = (\<lambda>fontId.
          if fontId \<in> set [''Courier'', ''Courier-Bold'', ''Courier-Oblique'',
               ''Courier-BoldOblique'', ''Helvetica'', ''Helvetica-Bold'', ''Helvetica-Oblique'',
               ''Helvetica-BoldOblique'', ''Times-Roman'', ''Times-Bold'', ''Times-Italic'',
               ''Times-BoldItalic'', ''Symbol'', ''ZapfDingbats'']
          then Some fontId else None),
       embedPng = Some,
       embedJpg = Some \<rparr>"

text \<open>A bold text of size 16 at (30, 40).\<close>

definition example_text :: text_annotation where
  "example_text =
     \<lparr> t_x = 30, t_y = 40, t_text = [72, 105], t_size = 16, t_color = ''#000000'',
       t_font = ''Helvetica'', t_bold = True, t_width = 20, t_height = 19.2 \<rparr>"

text \<open>The flipped position of an annotation on a page of height \<open>H\<close>.\<close>

definition flipped :: "real \<Rightarrow> annotation \<Rightarrow> (real \<times> real) list" where
  "flipped H ann =
     (case ann of
        Text t \<Rightarrow> [(t_x t, H - t_y t - t_size t)]
      | Image i \<Rightarrow> [(i_x i, H - i_y i - i_height i)]
      | Draw d \<Rightarrow> map (\<lambda>p. (pt_x p, H - pt_y p)) (d_path d))"

definition example_page :: "annotation list" where
  "example_page =
     [Draw \<lparr> d_path = [\<lparr> pt_x = 10, pt_y = 10 \<rparr>, \<lparr> pt_x = 20, pt_y = 10 \<rparr>,
                        \<lparr> pt_x = 20, pt_y = 20 \<rparr>],
             d_color = ''red'', d_lineWidth = 2 \<rparr>]"

text \<open>A document of four pages with one stroke on its first page.\<close>

definition four_pages :: "(int list, int list) state" where
  "four_pages =
     initial_state\<lparr> pdfDoc := Some [0, 0, 0, 0], pdfLibDoc := Some [0, 0, 0, 0],
       totalPages := 4, pageOrder := [1, 2, 3, 4],
       annotations := [example_page, [], [], []] \<rparr>"

text \<open>The clamped start and count of \<open>splice\<close> as natural numbers.\<close>

definition sp_s :: "int \<Rightarrow> nat \<Rightarrow> nat" where
  "sp_s start n = nat (if start < 0 then max (int n + start) 0 else min start (int n))"

definition sp_k :: "int \<Rightarrow> int \<Rightarrow> nat \<Rightarrow> nat" where
  "sp_k start dc n = nat (min (max dc 0) (int n - int (sp_s start n)))"

text \<open>
  The candidate width of a resize drag: the width at drag start plus the horizontal
  distance, in document units, of the pointer from the drag start.
\<close>

definition newWidth_of :: "('doc, 'pdf) state \<Rightarrow> point \<Rightarrow> real" where
  "newWidth_of st pos = r_width (dragStartAnn st) + (pt_x pos / scale st - pt_x (dragStartPos st))"

text \<open>
  A one-page document with an image of 100 by 50 units, selected and grabbed by its
  resize handle at the point (150, 100).
\<close>

definition example_image :: image_annotation where
  "example_image =
     \<lparr> i_x = 50, i_y = 50, i_width = 100, i_height = 50,
       i_imageData = ''data:image/png;base64,AAAA'', i_originalAspectRatio = 0.5 \<rparr>"

definition resizing :: "(int list, int list) state" where
  "resizing =
     initial_state\<lparr> pdfDoc := Some [0], pdfLibDoc := Some [0], totalPages := 1,
       pageOrder := [1], annotations := [[Image example_image]],
       selectedAnnotationIndex := 0, dragMode := DragResize,
       dragStartPos := \<lparr> pt_x = 150, pt_y = 100 \<rparr>,
       dragStartAnn := \<lparr> r_x = 50, r_y = 50, r_width = 100, r_height = 50 \<rparr> \<rparr>"

text \<open>A page with the stroke, the text and the image.\<close>

definition mixed_page :: "annotation list" where
  "mixed_page = example_page @ [Text example_text, Image example_image]"

text \<open>The four-page document with the text tool active and three spaces typed.\<close>

definition blank_edit :: "(int list, int list) state" where
  "blank_edit =
     four_pages\<lparr> activeTool := ToolText, isEditingText := True,
       textEditingState := Some \<lparr> te_x = 30, te_y = 45, te_width = 150, te_text = [32, 32, 32] \<rparr> \<rparr>"

text \<open>
  The four structural page operations under one name, and the test of
  \<open>confirmAndProceedWithOrganize\<close> for annotations on any page.
\<close>

datatype 'bytes organize_op =
  Rotate int "int option" | Delete int | Insert 'bytes int | Duplicate int

fun organize ::
  "('doc, 'pdf, 'bytes) pdflib \<Rightarrow> bool \<Rightarrow> 'bytes organize_op \<Rightarrow> ('doc, 'pdf) state
   \<Rightarrow> ('doc, 'pdf) state \<times> ui_event list" where
  "organize lib answer (Rotate degrees pageNumToRotate) st =
     rotatePage lib answer degrees pageNumToRotate st"
| "organize lib answer (Delete pageNumToDelete) st = deletePage lib answer pageNumToDelete st"
| "organize lib answer (Insert pdfBuffer insertionIndex) st =
     processAndInsertPdf lib answer pdfBuffer insertionIndex st"
| "organize lib answer (Duplicate pageNumToDuplicate) st =
     duplicatePage lib answer pageNumToDuplicate st"

definition hasAnnotations :: "('doc, 'pdf) state \<Rightarrow> bool" where
  "hasAnnotations st = list_ex (\<lambda>p. length p > 0) (annotations st)"



text \<open>
  Two states with the same annotation model and the same two stacks; a selection made
  between two mutations; the four-page document after an image is added to its first
  page, and after the stroke under it is then deleted.
\<close>

definition same_hist :: "('doc, 'pdf) state \<Rightarrow> ('doc, 'pdf) state \<Rightarrow> bool" where
  "same_hist s t =
     (annotations s = annotations t \<and> undoStack s = undoStack t \<and> redoStack s = redoStack t)"

definition select_first :: "('doc, 'pdf) state \<Rightarrow> ('doc, 'pdf) state" where
  "select_first st = st\<lparr> selectedAnnotationIndex := 0 \<rparr>"

definition image_added :: "(int list, int list) state" where
  "image_added =
     four_pages\<lparr> undoStack := [[example_page, [], [], []]],
       annotations := [example_page @ [Image example_image], [], [], []] \<rparr>"

definition stroke_deleted :: "(int list, int list) state" where
  "stroke_deleted =
     four_pages\<lparr> undoStack := [[example_page, [], [], []],
                     [example_page @ [Image example_image], [], [], []]],
       annotations := [[Image example_image], [], [], []] \<rparr>"

text \<open>
  Text scales with its font size: the point of the watermark that lies \<open>(a, b)\<close> em
  right of and below the centre of the text is \<open>(a, b)\<close> times the font size away from it,
  in the units of the font size. \<open>preview_point\<close> and \<open>export_point\<close> are where that point is
  seen on a page of the given size. \<open>helvetica_bold\<close> is a font for the examples, and
  \<open>shown_watermark\<close> the default watermark made visible.
\<close>

definition preview_point ::
  "watermark_settings \<Rightarrow> real \<times> real \<Rightarrow> real \<Rightarrow> ('doc, 'pdf) state \<Rightarrow> real \<times> real
   \<Rightarrow> (real \<times> real) option" where
  "preview_point settings pageSize devicePixelRatio st p =
     map_option (\<lambda>c. preview_seen c devicePixelRatio st (fst p * cf_fontPx c, snd p * cf_fontPx c))
       (drawWatermark settings (Some (canvas_of_page pageSize devicePixelRatio st))
          devicePixelRatio st)"

definition export_point ::
  "watermark_settings \<Rightarrow> font_metrics \<Rightarrow> real \<times> real \<Rightarrow> real \<times> real
   \<Rightarrow> (real \<times> real) option" where
  "export_point watermark watermarkFont pageSize p =
     map_option (\<lambda>e. export_seen e (snd pageSize) (fst p * pd_size e, snd p * pd_size e))
       (exportWatermark watermark watermarkFont pageSize)"

definition helvetica_bold :: font_metrics where
  "helvetica_bold =
     \<lparr> widthOfTextAtSize = (\<lambda>txt size. real (length txt) * 0.6 * size),
       heightAtSize = (\<lambda>size descender.
          if descender = Some False then 0.718 * size else 0.925 * size) \<rparr>"

definition shown_watermark :: watermark_settings where
  "shown_watermark = default_watermark\<lparr> wm_visible := True \<rparr>"

section \<open>Properties\<close>

lemma zoomIn_range:
  "0.25 \<le> scale st \<Longrightarrow> scale st \<le> 5 \<Longrightarrow> 0.25 \<le> scale (zoomIn st) \<and> scale (zoomIn st) \<le> 5"
  by (simp add: zoomIn_def)

lemma zoomOut_range:
  "0.25 \<le> scale st \<Longrightarrow> scale st \<le> 5 \<Longrightarrow> 0.25 \<le> scale (zoomOut st) \<and> scale (zoomOut st) \<le> 5"
  by (simp add: zoomOut_def)

lemma zoom_run_range:
  "0.25 \<le> scale st \<Longrightarrow> scale st \<le> 5 \<Longrightarrow>
   0.25 \<le> scale (zoom_run zs st) \<and> scale (zoom_run zs st) \<le> 5"
proof (induction zs arbitrary: st)
  case Nil
  then show ?case by simp
next
  case (Cons z zs)
  have "0.25 \<le> scale (zoom_step z st) \<and> scale (zoom_step z st) \<le> 5"
    using Cons.prems zoomIn_range [of st] zoomOut_range [of st] by (cases z) simp_all
  then show ?case using Cons.IH [of "zoom_step z st"] by simp
qed

text \<open>
  C10. From the initial scale 1.5, after any finite sequence of zoomIn and zoomOut the
  scale lies in the closed interval from 0.25 to 5; zoomIn takes s to min(5, s + 0.25) and
  zoomOut takes s to max(0.25, s - 0.25); so the divisor of the pointer conversion is
  strictly positive.
\<close>

theorem zoom_scale_bounded:
  "0.25 \<le> scale (zoom_run zs (initial_state :: ('doc, 'pdf) state))
   \<and> scale (zoom_run zs (initial_state :: ('doc, 'pdf) state)) \<le> 5
   \<and> 0 < scale (zoom_run zs (initial_state :: ('doc, 'pdf) state))
   \<and> scale (zoomIn (st :: ('doc, 'pdf) state)) = min 5 (scale st + 0.25)
   \<and> scale (zoomOut st) = max 0.25 (scale st - 0.25)
   \<and> scale (initial_state :: ('doc, 'pdf) state) = 1.5"
proof -
  have "0.25 \<le> scale (zoom_run zs (initial_state :: ('doc, 'pdf) state))
        \<and> scale (zoom_run zs (initial_state :: ('doc, 'pdf) state)) \<le> 5"
    by (rule zoom_run_range) (simp_all add: initial_state_def)
  then show ?thesis
    by (simp add: zoomIn_def zoomOut_def initial_state_def)
qed

subsection \<open>Export\<close>

lemma getFont_dom:
  "getFont newPdfDoc fontCache fontId = Inr (font, fontCache') \<Longrightarrow> dom fontCache \<subseteq> dom fontCache'"
  by (auto simp: getFont_def split: option.splits)

lemma export_annotation_points:
  "export_annotation newPdfDoc H fontCache ann = Inr (c, fontCache') \<Longrightarrow>
   call_points c = flipped H ann \<and> dom fontCache \<subseteq> dom fontCache'"
proof (cases ann)
  case (Text t)
  assume "export_annotation newPdfDoc H fontCache ann = Inr (c, fontCache')"
  with Text obtain font where
    g: "getFont newPdfDoc fontCache (export_fontId t) = Inr (font, fontCache')"
    and c: "c = DrawText (t_text t) font (t_x t) (H - t_y t - t_size t) (t_size t)
                  (t_size t * 1.2) (t_color t)"
    by (auto split: sum.splits)
  from getFont_dom [OF g] c Text show ?thesis by (simp add: flipped_def)
next
  case (Draw d)
  assume "export_annotation newPdfDoc H fontCache ann = Inr (c, fontCache')"
  with Draw show ?thesis by (auto simp: flipped_def split: list.splits)
next
  case (Image im)
  assume "export_annotation newPdfDoc H fontCache ann = Inr (c, fontCache')"
  with Image show ?thesis by (auto simp: flipped_def split: option.splits)
qed

lemma exportable_mono:
  "dom fontCache \<subseteq> dom fontCache' \<Longrightarrow> exportable newPdfDoc fontCache ann \<Longrightarrow>
   exportable newPdfDoc fontCache' ann"
  by (cases ann) (auto split: option.splits)

lemma export_annotation_total:
  "exportable newPdfDoc fontCache ann \<Longrightarrow>
   \<exists>c fontCache'. export_annotation newPdfDoc H fontCache ann = Inr (c, fontCache')"
proof (cases ann)
  case (Text t)
  assume "exportable newPdfDoc fontCache ann"
  with Text show ?thesis by (auto simp: getFont_def split: option.splits)
next
  case (Draw d)
  assume "exportable newPdfDoc fontCache ann"
  with Draw show ?thesis by (auto split: list.splits)
next
  case (Image im)
  assume "exportable newPdfDoc fontCache ann"
  with Image obtain imageBytes where
    "(if isPng (i_imageData im) then embedPng newPdfDoc (i_imageData im)
      else embedJpg newPdfDoc (i_imageData im)) = Some imageBytes"
    by (cases "if isPng (i_imageData im) then embedPng newPdfDoc (i_imageData im)
               else embedJpg newPdfDoc (i_imageData im)") simp_all
  with Image show ?thesis by simp
qed

lemma export_page_points:
  "export_page newPdfDoc H fontCache anns = Inr (cs, fontCache') \<Longrightarrow>
   length cs = length anns \<and> (\<forall>j < length anns. call_points (cs ! j) = flipped H (anns ! j))
   \<and> dom fontCache \<subseteq> dom fontCache'"
proof (induction anns arbitrary: cs fontCache)
  case Nil
  then show ?case by simp
next
  case (Cons a anns)
  from Cons.prems obtain c cs' fc where c: "export_annotation newPdfDoc H fontCache a = Inr (c, fc)"
    and cs': "export_page newPdfDoc H fc anns = Inr (cs', fontCache')" and cs: "cs = c # cs'"
    by (auto split: sum.splits)
  from Cons.IH [OF cs'] have l: "length cs' = length anns"
    and p: "\<forall>j < length anns. call_points (cs' ! j) = flipped H (anns ! j)"
    and d: "dom fc \<subseteq> dom fontCache'" by simp_all
  from export_annotation_points [OF c] have p0: "call_points c = flipped H a"
    and d0: "dom fontCache \<subseteq> dom fc" by simp_all
  have "dom fontCache \<subseteq> dom fontCache'" using d0 d by (rule subset_trans)
  moreover have "\<forall>j < length (a # anns). call_points (cs ! j) = flipped H ((a # anns) ! j)"
    using p p0 cs by (auto simp: nth_Cons split: nat.splits)
  ultimately show ?case using l cs by simp
qed

lemma export_page_total:
  "list_all (exportable newPdfDoc fontCache) anns \<Longrightarrow>
   \<exists>cs fontCache'. export_page newPdfDoc H fontCache anns = Inr (cs, fontCache')"
proof (induction anns arbitrary: fontCache)
  case Nil
  then show ?case by simp
next
  case (Cons a anns)
  from Cons.prems have a: "exportable newPdfDoc fontCache a"
    and r: "list_all (exportable newPdfDoc fontCache) anns" by simp_all
  from export_annotation_total [OF a] obtain c fc where
    c: "export_annotation newPdfDoc H fontCache a = Inr (c, fc)" by blast
  from export_annotation_points [OF c] have "dom fontCache \<subseteq> dom fc" by simp
  with r have "list_all (exportable newPdfDoc fc) anns"
    by (auto simp: list_all_iff intro: exportable_mono)
  from Cons.IH [OF this] obtain cs fc' where "export_page newPdfDoc H fc anns = Inr (cs, fc')"
    by blast
  with c show ?case by simp
qed

lemma export_pages_points:
  "export_pages newPdfDoc fontCache hs allAnns = Inr (css, fontCache') \<Longrightarrow> i < length hs \<Longrightarrow>
   i < length allAnns \<Longrightarrow>
   \<exists>fc fc'. export_page newPdfDoc (hs ! i) fc (allAnns ! i) = Inr (css ! i, fc')"
proof (induction hs arbitrary: allAnns css i fontCache)
  case Nil
  then show ?case by simp
next
  case (Cons h hs)
  from Cons.prems(3) obtain a rest where aa: "allAnns = a # rest" by (cases allAnns) auto
  from Cons.prems(1) aa obtain cs css' fc where cs: "export_page newPdfDoc h fontCache a = Inr (cs, fc)"
    and css': "export_pages newPdfDoc fc hs rest = Inr (css', fontCache')" and css: "css = cs # css'"
    by (auto split: sum.splits)
  show ?case
  proof (cases i)
    case 0
    then show ?thesis using cs css aa by auto
  next
    case (Suc k)
    then show ?thesis using Cons.IH [OF css', of k] Cons.prems(2,3) aa css by simp
  qed
qed

lemma export_pages_total:
  "list_all (list_all (exportable newPdfDoc fontCache)) (take (length hs) allAnns) \<Longrightarrow>
   \<exists>css fontCache'. export_pages newPdfDoc fontCache hs allAnns = Inr (css, fontCache')"
proof (induction hs arbitrary: allAnns fontCache)
  case Nil
  then show ?case by simp
next
  case (Cons h hs)
  let ?a = "case allAnns of [] \<Rightarrow> [] | pageAnns # _ \<Rightarrow> pageAnns"
  from Cons.prems have a: "list_all (exportable newPdfDoc fontCache) ?a"
    and r: "list_all (list_all (exportable newPdfDoc fontCache)) (take (length hs) (tl allAnns))"
    by (cases allAnns; simp)+
  from export_page_total [OF a] obtain cs fc where
    cs: "export_page newPdfDoc h fontCache ?a = Inr (cs, fc)" by blast
  from export_page_points [OF cs] have "dom fontCache \<subseteq> dom fc" by simp
  with r have "list_all (list_all (exportable newPdfDoc fc)) (take (length hs) (tl allAnns))"
    by (auto simp: list_all_iff intro: exportable_mono)
  from Cons.IH [OF this] obtain css fc' where
    "export_pages newPdfDoc fc hs (tl allAnns) = Inr (css, fc')" by blast
  with cs show ?case by simp
qed

text \<open>
  With the standard fonts a bold text in \<open>Times-Roman\<close> asks for the font
  \<open>Times-Roman-Bold\<close>, which is not among them: the export stops there.
\<close>

lemma bold_times_roman_not_embedded:
  "export_annotation standard_embedder H Map.empty (Text (example_text\<lparr> t_font := ''Times-Roman'' \<rparr>))
     = Inl EmbedFailed"
  by (simp add: example_text_def export_fontId_def getFont_def standard_embedder_def
      str_includes.simps)

text \<open>
  C1. On export every text annotation is drawn at y = pageHeight - y - size, every image
  at y = pageHeight - y - height, both with x unchanged, and every point (x, y) of a draw
  path becomes (x, pageHeight - y) with no height subtracted. The export goes through
  when every font and image of the exported pages can be embedded and every path has a
  point, and whenever it goes through these are the coordinates handed to the library.
\<close>

theorem export_flips_y:
  assumes "i < length hs" and "i < length allAnns" and "j < length (allAnns ! i)"
  shows "(list_all (list_all (exportable newPdfDoc fontCache)) (take (length hs) allAnns) \<longrightarrow>
            (\<exists>css fontCache'. export_pages newPdfDoc fontCache hs allAnns = Inr (css, fontCache')))
       \<and> (export_pages newPdfDoc fontCache hs allAnns = Inr (css, fontCache') \<longrightarrow>
            call_points (css ! i ! j) =
              (case allAnns ! i ! j of
                 Text t \<Rightarrow> [(t_x t, hs ! i - t_y t - t_size t)]
               | Image im \<Rightarrow> [(i_x im, hs ! i - i_y im - i_height im)]
               | Draw d \<Rightarrow> map (\<lambda>p. (pt_x p, hs ! i - pt_y p)) (d_path d)))"
proof (intro conjI impI)
  assume "list_all (list_all (exportable newPdfDoc fontCache)) (take (length hs) allAnns)"
  then show "\<exists>css fontCache'. export_pages newPdfDoc fontCache hs allAnns = Inr (css, fontCache')"
    by (rule export_pages_total)
next
  assume e: "export_pages newPdfDoc fontCache hs allAnns = Inr (css, fontCache')"
  from export_pages_points [OF e assms(1,2)] obtain fc fc' where
    "export_page newPdfDoc (hs ! i) fc (allAnns ! i) = Inr (css ! i, fc')" by blast
  from export_page_points [OF this] assms(3)
  show "call_points (css ! i ! j) =
              (case allAnns ! i ! j of
                 Text t \<Rightarrow> [(t_x t, hs ! i - t_y t - t_size t)]
               | Image im \<Rightarrow> [(i_x im, hs ! i - i_y im - i_height im)]
               | Draw d \<Rightarrow> map (\<lambda>p. (pt_x p, hs ! i - pt_y p)) (d_path d))"
    by (simp add: flipped_def)
qed

lemma mixed_page_exportable:
  "list_all (list_all (exportable standard_embedder Map.empty)) (take (length [100::real]) [mixed_page])"
  by (simp add: mixed_page_def example_page_def example_text_def example_image_def
      standard_embedder_def export_fontId_def isPng_def str_includes.simps)

lemma mixed_page_exported:
  "export_pages standard_embedder Map.empty [100] [mixed_page] =
     Inr ([[DrawSvgPath [MoveTo 10 90, LineTo 20 90, LineTo 20 80] 2,
            DrawText [72, 105] ''Helvetica-Bold'' 30 44 16 19.2 ''#000000'',
            DrawImage ''data:image/png;base64,AAAA'' 50 0 100 50]],
          [''Helvetica-Bold'' \<mapsto> ''Helvetica-Bold''])"
  by (simp add: mixed_page_def example_page_def example_text_def example_image_def
      standard_embedder_def export_fontId_def isPng_def getFont_def str_includes.simps)

text \<open>
  On a page 100 units high the path (10,10), (20,10), (20,20) is exported as
  (10,90), (20,90), (20,80), the text of size 16 at (30, 40) at (30, 44), and the image
  of height 50 at (50, 50) at (50, 0).
\<close>

theorem export_flips_y_witness:
  "list_all (list_all (exportable standard_embedder Map.empty)) (take (length [100::real]) [mixed_page])
   \<and> export_pages standard_embedder Map.empty [100] [mixed_page] =
     Inr ([[DrawSvgPath [MoveTo 10 90, LineTo 20 90, LineTo 20 80] 2,
            DrawText [72, 105] ''Helvetica-Bold'' 30 44 16 19.2 ''#000000'',
            DrawImage ''data:image/png;base64,AAAA'' 50 0 100 50]],
          [''Helvetica-Bold'' \<mapsto> ''Helvetica-Bold''])
   \<and> call_points (DrawSvgPath [MoveTo 10 90, LineTo 20 90, LineTo 20 80] 2
         :: (string, string) export_call) = [(10, 90), (20, 90), (20, 80)]
   \<and> call_points (DrawText [72, 105] ''Helvetica-Bold'' 30 44 16 19.2 ''#000000''
         :: (string, string) export_call) = [(30, 44)]
   \<and> call_points (DrawImage ''data:image/png;base64,AAAA'' 50 0 100 50
         :: (string, string) export_call) = [(50, 0)]"
proof -
  have l: "(0::nat) < length [100::real]" "(0::nat) < length [mixed_page]" by simp_all
  have j: "0 < length ([mixed_page] ! 0)" "1 < length ([mixed_page] ! 0)"
    "2 < length ([mixed_page] ! 0)"
    by (simp_all add: mixed_page_def example_page_def)
  from export_flips_y [OF l j(1), of standard_embedder Map.empty]
       export_flips_y [OF l j(2), of standard_embedder Map.empty]
       export_flips_y [OF l j(3), of standard_embedder Map.empty]
  show ?thesis using mixed_page_exportable mixed_page_exported by simp
qed

subsection \<open>Page reordering\<close>

lemma splice_eq:
  "splice start dc items xs =
     (take (sp_k start dc (length xs)) (drop (sp_s start (length xs)) xs),
      take (sp_s start (length xs)) xs @ items
        @ drop (sp_s start (length xs) + sp_k start dc (length xs)) xs)"
proof -
  define s where "s = (if start < 0 then max (int (length xs) + start) 0 else min start (int (length xs)))"
  define d where "d = min (max dc 0) (int (length xs) - s)"
  have s0: "0 \<le> s" and sl: "s \<le> int (length xs)" by (auto simp: s_def)
  then have d0: "0 \<le> d" by (auto simp: d_def)
  have ss: "sp_s start (length xs) = nat s" by (simp add: sp_s_def s_def)
  have kk: "sp_k start dc (length xs) = nat d" using s0 by (simp add: sp_k_def ss d_def)
  have "nat (s + d) = nat s + nat d" using s0 d0 by (simp add: nat_add_distrib)
  then show ?thesis
    unfolding ss kk by (simp add: splice_def Let_def s_def [symmetric] d_def [symmetric])
qed

lemma sp_k_one: "sp_k start 1 n \<le> 1"
  by (simp add: sp_k_def)

lemma splice_map:
  "splice s d (map f items) (map f xs) =
     (map f (fst (splice s d items xs)), map f (snd (splice s d items xs)))"
  by (simp add: splice_eq take_map drop_map)

lemma move_entry_map:
  "move_entry d a (map f xs) =
     (case move_entry d a xs of Inl e \<Rightarrow> Inl e | Inr ys \<Rightarrow> Inr (map f ys))"
proof -
  obtain removed rest where sp: "splice d 1 [] xs = (removed, rest)"
    by (cases "splice d 1 [] xs")
  have 1: "splice d 1 [] (map f xs) = (map f removed, map f rest)"
    using splice_map [of d 1 f "[]" xs] sp by simp
  show ?thesis
  proof (cases removed)
    case Nil
    then show ?thesis using 1 sp by (simp add: move_entry_def)
  next
    case (Cons m ms)
    have "splice a 0 [f m] (map f rest) =
      (map f (fst (splice a 0 [m] rest)), map f (snd (splice a 0 [m] rest)))"
      using splice_map [of a 0 f "[m]" rest] by simp
    then show ?thesis using 1 sp Cons by (simp add: move_entry_def)
  qed
qed

lemma mset_take_drop: "mset (take n xs) + mset (drop n xs) = mset xs"
  by (metis append_take_drop_id mset_append)

lemma splice_remove_mset:
  "splice d 1 [] xs = (removed, rest) \<Longrightarrow> mset removed + mset rest = mset xs"
proof -
  assume a: "splice d 1 [] xs = (removed, rest)"
  define s where "s = sp_s d (length xs)"
  define k where "k = sp_k d 1 (length xs)"
  have r: "removed = take k (drop s xs)" and t: "rest = take s xs @ drop (s + k) xs"
    using a by (simp_all add: splice_eq s_def k_def)
  have "mset removed + mset rest
          = mset (take s xs) + (mset (take k (drop s xs)) + mset (drop k (drop s xs)))"
    using r t by (simp add: add.commute)
  also have "\<dots> = mset (take s xs) + mset (drop s xs)"
    by (simp only: mset_take_drop)
  finally show ?thesis by (simp only: mset_take_drop)
qed

lemma splice_insert_mset:
  "mset (snd (splice a 0 items xs)) = mset items + mset xs"
proof -
  have "mset (snd (splice a 0 items xs))
      = mset items + (mset (take (sp_s a (length xs)) xs) + mset (drop (sp_s a (length xs)) xs))"
    by (simp add: splice_eq sp_k_def)
  then show ?thesis by (simp only: mset_take_drop)
qed

lemma splice_removed_short: "length (fst (splice d 1 [] xs)) \<le> 1"
  using sp_k_one [of d "length xs"] by (simp add: splice_eq)

lemma move_entry_mset: "move_entry d a xs = Inr ys \<Longrightarrow> mset ys = mset xs"
proof -
  assume a: "move_entry d a xs = Inr ys"
  obtain removed rest where sp: "splice d 1 [] xs = (removed, rest)" by (cases "splice d 1 [] xs")
  from a sp obtain m ms where rm: "removed = m # ms"
    and ys: "ys = snd (splice a 0 [m] rest)"
    by (auto simp: move_entry_def split: list.splits)
  have "length removed \<le> 1" using splice_removed_short [of d xs] sp by simp
  with rm have "removed = [m]" by simp
  with splice_remove_mset [OF sp] have "mset xs = {#m#} + mset rest" by simp
  with ys show ?thesis by (simp add: splice_insert_mset)
qed

lemma move_entry_perm:
  assumes "move_entry d a xs = Inr ys"
  shows "\<exists>perm. move_entry d a [0..<length xs] = Inr perm \<and> ys = map ((!) xs) perm"
proof -
  have "move_entry d a (map ((!) xs) [0..<length xs]) = Inr ys"
    using assms by (simp add: map_nth)
  then show ?thesis
    by (simp add: move_entry_map split: sum.splits)
qed

text \<open>
  C3 (as amended). Reordering applies one and the same permutation to the page order and
  to the sequence of annotation lists; moving the page at index 0 to drop index 2 in a
  document of four pages gives the page order p1, p0, p2, p3, with the annotation lists
  permuted identically.
\<close>

theorem reorderPages_lockstep:
  "(reorderPages dragIndex dropIndex st = Inr st'
      \<and> length (pageOrder st) = length (annotations st) \<longrightarrow>
      (\<exists>perm. mset perm = mset [0..<length (pageOrder st)]
          \<and> pageOrder st' = map ((!) (pageOrder st)) perm
          \<and> annotations st' = map ((!) (annotations st)) perm))
   \<and> (pageOrder st = [p0, p1, p2, p3] \<and> annotations st = [a0, a1, a2, a3] \<longrightarrow>
        reorderPages 0 2 st =
          Inr (st\<lparr> pageOrder := [p1, p0, p2, p3], annotations := [a1, a0, a2, a3] \<rparr>))"
proof (intro conjI impI)
  assume a: "reorderPages dragIndex dropIndex st = Inr st'
      \<and> length (pageOrder st) = length (annotations st)"
  show "\<exists>perm. mset perm = mset [0..<length (pageOrder st)]
          \<and> pageOrder st' = map ((!) (pageOrder st)) perm
          \<and> annotations st' = map ((!) (annotations st)) perm"
  proof (cases "dropIndex = dragIndex \<or> dropIndex = dragIndex + 1")
    case True
    with a have e: "st' = st" by (simp add: reorderPages_def)
    have "map ((!) (annotations st)) [0..<length (annotations st)] = annotations st"
      by (rule map_nth)
    then have "annotations st = map ((!) (annotations st)) [0..<length (pageOrder st)]"
      using a by simp
    moreover have "pageOrder st = map ((!) (pageOrder st)) [0..<length (pageOrder st)]"
      by (simp add: map_nth)
    ultimately show ?thesis unfolding e by blast
  next
    case False
    define adj where "adj = (if dragIndex < dropIndex then dropIndex - 1 else dropIndex)"
    from a False obtain po an where po: "move_entry dragIndex adj (pageOrder st) = Inr po"
      and an: "move_entry dragIndex adj (annotations st) = Inr an"
      and st': "st' = st\<lparr> pageOrder := po, annotations := an \<rparr>"
      by (auto simp: reorderPages_def Let_def adj_def split: sum.splits)
    from move_entry_perm [OF po] obtain perm where
      p1: "move_entry dragIndex adj [0..<length (pageOrder st)] = Inr perm"
      and p2: "po = map ((!) (pageOrder st)) perm" by blast
    from move_entry_perm [OF an] a p1 have p3: "an = map ((!) (annotations st)) perm" by auto
    from move_entry_mset [OF p1] p2 p3 st' show ?thesis by auto
  qed
next
  assume "pageOrder st = [p0, p1, p2, p3] \<and> annotations st = [a0, a1, a2, a3]"
  then show "reorderPages 0 2 st =
      Inr (st\<lparr> pageOrder := [p1, p0, p2, p3], annotations := [a1, a0, a2, a3] \<rparr>)"
    by (simp add: reorderPages_def move_entry_def splice_def)
qed

theorem reorderPages_lockstep_witness:
  "reorderPages 0 2 four_pages =
     Inr (four_pages\<lparr> pageOrder := [2, 1, 3, 4], annotations := [[], example_page, [], []] \<rparr>)
   \<and> length (pageOrder four_pages) = length (annotations four_pages)
   \<and> (\<exists>perm. mset perm = mset [0..<length (pageOrder four_pages)]
          \<and> [2, 1, 3, 4] = map ((!) (pageOrder four_pages)) perm
          \<and> [[], example_page, [], []] = map ((!) (annotations four_pages)) perm)"
proof -
  have r: "reorderPages 0 2 four_pages =
     Inr (four_pages\<lparr> pageOrder := [2, 1, 3, 4], annotations := [[], example_page, [], []] \<rparr>)"
    by (simp add: reorderPages_def move_entry_def splice_def four_pages_def)
  have l: "length (pageOrder four_pages) = length (annotations four_pages)"
    by (simp add: four_pages_def)
  from reorderPages_lockstep [of 0 2 four_pages
      "four_pages\<lparr> pageOrder := [2, 1, 3, 4], annotations := [[], example_page, [], []] \<rparr>"]
    r l show ?thesis by simp
qed

text \<open>
  The order p1, p2, p0, p3 is not what the code produces for drag index 0 and drop
  index 2: on the pages 1, 2, 3, 4 it produces 2, 1, 3, 4.
\<close>

theorem reorderPages_example_counterexample:
  "reorderPages 0 2 four_pages =
     Inr (four_pages\<lparr> pageOrder := [2, 1, 3, 4], annotations := [[], example_page, [], []] \<rparr>)
   \<and> [2, 1, 3, 4] \<noteq> [2, 3, 1, (4::int)]"
  by (simp add: reorderPages_def move_entry_def splice_def four_pages_def)

subsection \<open>Resizing an image\<close>

lemma selectedAnnotation_SomeD:
  assumes "selectedAnnotation st = Inr (Some ann)"
  shows "pageIndex_of st > - 1 \<and> selectedAnnotationIndex st > - 1
     \<and> (\<exists>pageAnns. js_nth (annotations st) (pageIndex_of st) = Some pageAnns
           \<and> js_nth pageAnns (selectedAnnotationIndex st) = Some ann)"
  using assms by (auto simp: selectedAnnotation_def split: if_splits option.splits)

lemma js_nth_SomeD: "js_nth xs i = Some x \<Longrightarrow> 0 \<le> i \<and> nat i < length xs \<and> xs ! nat i = x"
  by (auto simp: js_nth_def split: if_splits)

lemma js_nth_update: "js_nth xs i = Some x \<Longrightarrow> js_nth (xs[nat i := y]) i = Some y"
  by (auto simp: js_nth_def split: if_splits)

lemma onMouseMove_drag:
  assumes m: "dragMode st \<noteq> DragNone" and sel: "selectedAnnotation st = Inr (Some ann)"
  shows "\<exists>st'. onMouseMove (Some pos) st = Inr st'
     \<and> selectedAnnotation st' = Inr (Some (drag_annotation (dragMode st) (dragStartAnn st)
           (pt_x pos / scale st - pt_x (dragStartPos st))
           (pt_y pos / scale st - pt_y (dragStartPos st)) ann))
     \<and> (drag_annotation (dragMode st) (dragStartAnn st)
           (pt_x pos / scale st - pt_x (dragStartPos st))
           (pt_y pos / scale st - pt_y (dragStartPos st)) ann = ann \<longrightarrow> st' = st)"
proof -
  let ?ann' = "drag_annotation (dragMode st) (dragStartAnn st)
           (pt_x pos / scale st - pt_x (dragStartPos st))
           (pt_y pos / scale st - pt_y (dragStartPos st)) ann"
  from selectedAnnotation_SomeD [OF sel] obtain pageAnns where
    pi: "pageIndex_of st > - 1" and ai: "selectedAnnotationIndex st > - 1"
    and pa: "js_nth (annotations st) (pageIndex_of st) = Some pageAnns"
    and an: "js_nth pageAnns (selectedAnnotationIndex st) = Some ann" by blast
  let ?st' = "st\<lparr> annotations := (annotations st)[nat (pageIndex_of st) :=
                 pageAnns[nat (selectedAnnotationIndex st) := ?ann']] \<rparr>"
  have r: "onMouseMove (Some pos) st = Inr ?st'"
    using m pi ai pa an by (simp add: onMouseMove_def Let_def toDocument_def)
  have pi': "pageIndex_of ?st' = pageIndex_of st" by (simp add: pageIndex_of_def)
  have s: "selectedAnnotation ?st' = Inr (Some ?ann')"
    using pi ai js_nth_update [OF pa] js_nth_update [OF an]
    by (simp add: selectedAnnotation_def pi')
  have u: "?ann' = ann \<longrightarrow> ?st' = st"
  proof
    assume e: "?ann' = ann"
    have "pageAnns[nat (selectedAnnotationIndex st) := ann] = pageAnns"
      using js_nth_SomeD [OF an] by (metis list_update_id)
    moreover have "(annotations st)[nat (pageIndex_of st) := pageAnns] = annotations st"
      using js_nth_SomeD [OF pa] by (metis list_update_id)
    ultimately show "?st' = st" using e by simp
  qed
  from r s u show ?thesis by blast
qed

lemma resizing_selected: "selectedAnnotation resizing = Inr (Some (Image example_image))"
  by (simp add: resizing_def initial_state_def selectedAnnotation_def pageIndex_of_def
      indexOf_def js_nth_def)

text \<open>
  C4. A pointer move in resize mode on a selected image, whenever the resize is applied
  (the candidate width exceeds 10), leaves height = width * originalAspectRatio and
  height / width = originalAspectRatio, with the stored ratio unchanged; a move that is
  not applied keeps the relation if it held.
\<close>

theorem resize_keeps_aspect_ratio:
  assumes "dragMode st = DragResize" and "selectedAnnotation st = Inr (Some (Image a))"
  shows "\<exists>st' a'. onMouseMove (Some pos) st = Inr st'
     \<and> selectedAnnotation st' = Inr (Some (Image a'))
     \<and> i_originalAspectRatio a' = i_originalAspectRatio a
     \<and> (newWidth_of st pos > 10 \<longrightarrow>
          i_width a' = newWidth_of st pos
          \<and> i_height a' = i_width a' * i_originalAspectRatio a'
          \<and> i_height a' / i_width a' = i_originalAspectRatio a)
     \<and> (i_height a = i_width a * i_originalAspectRatio a \<longrightarrow>
          i_height a' = i_width a' * i_originalAspectRatio a')"
proof -
  from assms(1) have m: "dragMode st \<noteq> DragNone" by simp
  from onMouseMove_drag [OF m assms(2), of pos] obtain st' where
    r: "onMouseMove (Some pos) st = Inr st'"
    and s: "selectedAnnotation st' = Inr (Some (drag_annotation DragResize (dragStartAnn st)
           (pt_x pos / scale st - pt_x (dragStartPos st))
           (pt_y pos / scale st - pt_y (dragStartPos st)) (Image a)))"
    using assms(1) by auto
  show ?thesis
  proof (cases "newWidth_of st pos > 10")
    case True
    let ?a' = "a\<lparr> i_width := newWidth_of st pos,
                  i_height := newWidth_of st pos * i_originalAspectRatio a \<rparr>"
    have "selectedAnnotation st' = Inr (Some (Image ?a'))"
      using s True by (simp add: drag_annotation_def newWidth_of_def Let_def)
    moreover have "newWidth_of st pos \<noteq> 0" using True by simp
    ultimately show ?thesis using r True by (intro exI [of _ st'] exI [of _ ?a']) simp
  next
    case False
    have "selectedAnnotation st' = Inr (Some (Image a))"
      using s False by (simp add: drag_annotation_def newWidth_of_def Let_def)
    then show ?thesis using r False by (intro exI [of _ st'] exI [of _ a]) simp
  qed
qed

theorem resize_keeps_aspect_ratio_witness:
  "dragMode resizing = DragResize \<and> selectedAnnotation resizing = Inr (Some (Image example_image))
   \<and> newWidth_of resizing \<lparr> pt_x = 300, pt_y = 150 \<rparr> = 150
   \<and> (\<exists>st' a'. onMouseMove (Some \<lparr> pt_x = 300, pt_y = 150 \<rparr>) resizing = Inr st'
         \<and> selectedAnnotation st' = Inr (Some (Image a'))
         \<and> i_width a' = 150 \<and> i_height a' = i_width a' * i_originalAspectRatio a'
         \<and> i_height a' / i_width a' = 0.5)"
proof -
  have m: "dragMode resizing = DragResize" by (simp add: resizing_def)
  have w: "newWidth_of resizing \<lparr> pt_x = 300, pt_y = 150 \<rparr> = 150"
    by (simp add: newWidth_of_def resizing_def initial_state_def)
  have r: "i_originalAspectRatio example_image = 0.5" by (simp add: example_image_def)
  from resize_keeps_aspect_ratio [OF m resizing_selected, of "\<lparr> pt_x = 300, pt_y = 150 \<rparr>"]
  show ?thesis using m resizing_selected w r by auto
qed

text \<open>
  C5. A pointer move in resize mode whose candidate width (drag-start width + dx) does
  not exceed 10 leaves the state, and so width and height, unchanged; width or height
  change only when the candidate width exceeds 10, and then to it and its aspect-locked
  height.
\<close>

theorem resize_below_minimum_ignored:
  assumes "dragMode st = DragResize" and "selectedAnnotation st = Inr (Some (Image a))"
  shows "\<exists>st' a'. onMouseMove (Some pos) st = Inr st'
     \<and> selectedAnnotation st' = Inr (Some (Image a'))
     \<and> (newWidth_of st pos \<le> 10 \<longrightarrow> st' = st \<and> a' = a)
     \<and> (i_width a' \<noteq> i_width a \<or> i_height a' \<noteq> i_height a \<longrightarrow>
          newWidth_of st pos > 10 \<and> i_width a' = newWidth_of st pos
          \<and> i_height a' = newWidth_of st pos * i_originalAspectRatio a)"
proof -
  from assms(1) have m: "dragMode st \<noteq> DragNone" by simp
  from onMouseMove_drag [OF m assms(2), of pos] obtain st' where
    r: "onMouseMove (Some pos) st = Inr st'"
    and s: "selectedAnnotation st' = Inr (Some (drag_annotation DragResize (dragStartAnn st)
           (pt_x pos / scale st - pt_x (dragStartPos st))
           (pt_y pos / scale st - pt_y (dragStartPos st)) (Image a)))"
    and u: "drag_annotation DragResize (dragStartAnn st)
           (pt_x pos / scale st - pt_x (dragStartPos st))
           (pt_y pos / scale st - pt_y (dragStartPos st)) (Image a) = Image a \<longrightarrow> st' = st"
    using assms(1) by auto
  show ?thesis
  proof (cases "newWidth_of st pos > 10")
    case True
    let ?a' = "a\<lparr> i_width := newWidth_of st pos,
                  i_height := newWidth_of st pos * i_originalAspectRatio a \<rparr>"
    have "selectedAnnotation st' = Inr (Some (Image ?a'))"
      using s True by (simp add: drag_annotation_def newWidth_of_def Let_def)
    then show ?thesis using r True by (intro exI [of _ st'] exI [of _ ?a']) simp
  next
    case False
    have d: "drag_annotation DragResize (dragStartAnn st)
           (pt_x pos / scale st - pt_x (dragStartPos st))
           (pt_y pos / scale st - pt_y (dragStartPos st)) (Image a) = Image a"
      using False by (simp add: drag_annotation_def newWidth_of_def Let_def)
    then have "selectedAnnotation st' = Inr (Some (Image a))" and "st' = st"
      using s u by simp_all
    then show ?thesis using r False by (intro exI [of _ st'] exI [of _ a]) simp
  qed
qed

theorem resize_below_minimum_ignored_witness:
  "dragMode resizing = DragResize \<and> selectedAnnotation resizing = Inr (Some (Image example_image))
   \<and> newWidth_of resizing \<lparr> pt_x = 30, pt_y = 150 \<rparr> = - 30
   \<and> onMouseMove (Some \<lparr> pt_x = 30, pt_y = 150 \<rparr>) resizing = Inr resizing"
proof -
  have m: "dragMode resizing = DragResize" by (simp add: resizing_def)
  have w: "newWidth_of resizing \<lparr> pt_x = 30, pt_y = 150 \<rparr> = - 30"
    by (simp add: newWidth_of_def resizing_def initial_state_def)
  from resize_below_minimum_ignored [OF m resizing_selected, of "\<lparr> pt_x = 30, pt_y = 150 \<rparr>"]
  show ?thesis using m resizing_selected w by auto
qed

subsection \<open>Text editing\<close>

lemma dropWhile_all: "(\<forall>x \<in> set (dropWhile P xs). P x) \<longleftrightarrow> (\<forall>x \<in> set xs. P x)"
  by (induction xs) auto

lemma trim_empty_iff: "trim s = [] \<longleftrightarrow> list_all is_ws s"
  by (simp add: trim_def dropWhile_all list_all_iff)

text \<open>
  C6. Finalizing a text edit whose buffer is empty or holds white space only adds no
  annotation, changes none, and leaves the undo and redo stacks as they were: the edit is
  cancelled, which only closes the editor.
\<close>

theorem finalize_blank_text_cancels:
  assumes "textEditingState st = Some state" and "list_all is_ws (te_text state)"
  shows "\<exists>st'. finalizeTextAnnotation drawCanvas devicePixelRatio st = Inr st'
     \<and> annotations st' = annotations st
     \<and> undoStack st' = undoStack st \<and> redoStack st' = redoStack st
     \<and> (isEditingText st \<longrightarrow> st' = cancelTextAnnotation st
           \<and> \<not> isEditingText st' \<and> textEditingState st' = None)
     \<and> cancelTextAnnotation st = st\<lparr> isEditingText := False, textEditingState := None \<rparr>"
  using assms
  by (simp add: finalizeTextAnnotation_def cancelTextAnnotation_def trim_empty_iff)

theorem finalize_blank_text_cancels_witness:
  "textEditingState blank_edit
     = Some \<lparr> te_x = 30, te_y = 45, te_width = 150, te_text = [32, 32, 32] \<rparr>
   \<and> list_all is_ws [32, 32, 32] \<and> isEditingText blank_edit
   \<and> finalizeTextAnnotation None 1 blank_edit
       = Inr (blank_edit\<lparr> isEditingText := False, textEditingState := None \<rparr>)
   \<and> annotations (blank_edit\<lparr> isEditingText := False, textEditingState := None \<rparr>)
       = annotations four_pages
   \<and> undoStack (blank_edit\<lparr> isEditingText := False, textEditingState := None \<rparr>) = []
   \<and> redoStack (blank_edit\<lparr> isEditingText := False, textEditingState := None \<rparr>) = []"
proof -
  have t: "textEditingState blank_edit
     = Some \<lparr> te_x = 30, te_y = 45, te_width = 150, te_text = [32, 32, 32] \<rparr>"
    by (simp add: blank_edit_def)
  have w: "list_all is_ws (te_text \<lparr> te_x = 30, te_y = 45, te_width = 150, te_text = [32, 32, 32] \<rparr>)"
    by (simp add: is_ws_def)
  have e: "isEditingText blank_edit" by (simp add: blank_edit_def)
  from finalize_blank_text_cancels [OF t w, of None 1] show ?thesis
    using t w e by (auto simp: blank_edit_def four_pages_def initial_state_def)
qed

subsection \<open>Structural page operations\<close>

lemma confirm_declined:
  "hasAnnotations st \<Longrightarrow> confirmAndProceedWithOrganize False action st = (st, [ConfirmPrompt])"
  by (simp add: confirmAndProceedWithOrganize_def hasAnnotations_def)

lemma confirm_first:
  "hasAnnotations st \<Longrightarrow>
   \<exists>st' evs. confirmAndProceedWithOrganize answer action st = (st', ConfirmPrompt # evs)"
  by (cases answer; cases "action st")
     (simp_all add: confirmAndProceedWithOrganize_def hasAnnotations_def)

text \<open>
  C7 (as amended). While some page has an annotation, rotate, insert, duplicate, and
  delete on a document of more than one page, first show the confirmation dialog, and
  when the user declines they do nothing: the state (page order, annotation lists, undo
  and redo stacks, loaded document) is returned as it was. Delete on a document of at most
  one page shows the last-page alert instead of the dialog and also changes nothing.
\<close>

theorem organize_guarded_by_confirmation:
  assumes "hasAnnotations st"
  shows "((\<forall>n. op = Delete n \<longrightarrow> totalPages st > 1) \<longrightarrow>
            (\<exists>st' evs. organize lib answer op st = (st', ConfirmPrompt # evs))
            \<and> organize lib False op st = (st, [ConfirmPrompt]))
       \<and> (totalPages st \<le> 1 \<longrightarrow>
            organize lib answer (Delete n) st = (st, [Alert LastPageNotDeletable]))"
proof (intro conjI impI)
  assume d: "\<forall>n. op = Delete n \<longrightarrow> totalPages st > 1"
  show "\<exists>st' evs. organize lib answer op st = (st', ConfirmPrompt # evs)"
  proof (cases op)
    case (Delete n)
    with d have "\<not> totalPages st \<le> 1" by simp
    then show ?thesis using Delete confirm_first [OF assms]
      by (simp add: deletePage_def)
  qed (simp_all add: rotatePage_def processAndInsertPdf_def duplicatePage_def Let_def
        confirm_first [OF assms])
  show "organize lib False op st = (st, [ConfirmPrompt])"
  proof (cases op)
    case (Delete n)
    with d have "\<not> totalPages st \<le> 1" by simp
    then show ?thesis using Delete confirm_declined [OF assms]
      by (simp add: deletePage_def)
  qed (simp_all add: rotatePage_def processAndInsertPdf_def duplicatePage_def Let_def
        confirm_declined [OF assms])
next
  assume "totalPages st \<le> 1"
  then show "organize lib answer (Delete n) st = (st, [Alert LastPageNotDeletable])"
    by (simp add: deletePage_def)
qed

lemma four_pages_has: "hasAnnotations four_pages"
  by (simp add: hasAnnotations_def four_pages_def example_page_def)

theorem organize_guarded_by_confirmation_witness:
  "hasAnnotations four_pages \<and> totalPages four_pages > 1
   \<and> organize list_lib False (Delete 2) four_pages = (four_pages, [ConfirmPrompt])
   \<and> organize list_lib False (Rotate 90 None) four_pages = (four_pages, [ConfirmPrompt])
   \<and> organize list_lib False (Insert [0] 1) four_pages = (four_pages, [ConfirmPrompt])
   \<and> organize list_lib False (Duplicate 1) four_pages = (four_pages, [ConfirmPrompt])
   \<and> (\<exists>st' evs. organize list_lib True (Delete 2) four_pages = (st', ConfirmPrompt # evs))"
proof -
  have t: "totalPages four_pages > 1" by (simp add: four_pages_def)
  from organize_guarded_by_confirmation [OF four_pages_has, of "Delete 2" list_lib True]
       organize_guarded_by_confirmation [OF four_pages_has, of "Rotate 90 None" list_lib True]
       organize_guarded_by_confirmation [OF four_pages_has, of "Insert [0] 1" list_lib True]
       organize_guarded_by_confirmation [OF four_pages_has, of "Duplicate 1" list_lib True]
  show ?thesis using t four_pages_has by simp
qed

text \<open>
  Deleting the only page of a document that has an annotation shows no confirmation
  dialog: the single-page guard comes first.
\<close>

theorem delete_single_page_counterexample:
  "hasAnnotations resizing
   \<and> organize list_lib True (Delete 1) resizing = (resizing, [Alert LastPageNotDeletable])
   \<and> ConfirmPrompt \<notin> set [Alert LastPageNotDeletable]"
  by (simp add: deletePage_def hasAnnotations_def resizing_def initial_state_def)

subsection \<open>The delete key\<close>




subsection \<open>History\<close>

lemma addAnnotation_commits:
  "addAnnotation a st = Inr st' \<Longrightarrow>
   undoStack st' = undoStack st @ [annotations st] \<and> redoStack st' = []"
  by (auto simp: addAnnotation_def Let_def split: if_splits option.splits)

lemma onDeleteKeyPressed_commits:
  "selectedAnnotationIndex st > - 1 \<Longrightarrow> onDeleteKeyPressed lib answer st = Inr (st', evs) \<Longrightarrow>
   undoStack st' = undoStack st @ [annotations st] \<and> redoStack st' = []"
  by (auto simp: onDeleteKeyPressed_def Let_def split: if_splits option.splits)

lemma finalizeTextAnnotation_commits:
  assumes "isEditingText st" and "textEditingState st = Some state"
    and "trim (te_text state) \<noteq> []"
    and "finalizeTextAnnotation drawCanvas devicePixelRatio st = Inr st'"
  shows "undoStack st' = undoStack st @ [annotations st] \<and> redoStack st' = []"
proof -
  obtain width height where
    m: "measureText drawCanvas devicePixelRatio st (te_text state) (textSettings st) = (width, height)"
    by (cases "measureText drawCanvas devicePixelRatio st (te_text state) (textSettings st)")
  obtain annToEdit where s: "selectedAnnotation st = Inr annToEdit"
    using assms by (cases "selectedAnnotation st") (simp_all add: finalizeTextAnnotation_def Let_def m)
  show ?thesis
  proof (cases "\<exists>a. annToEdit = Some (Text a)")
    case True
    then obtain a where a: "annToEdit = Some (Text a)" by blast
    show ?thesis using assms m s a
      by (auto simp: finalizeTextAnnotation_def Let_def split: option.splits)
  next
    case False
    then obtain st1 where
      "addAnnotation (Text \<lparr> t_x = te_x state / scale st, t_y = te_y state / scale st,
           t_text = trim (te_text state), t_size = ts_size (textSettings st),
           t_color = ts_color (textSettings st), t_font = ts_font (textSettings st),
           t_bold = ts_bold (textSettings st),
           t_width = width / (scale st * pixelRatio_of devicePixelRatio),
           t_height = height / (scale st * pixelRatio_of devicePixelRatio) \<rparr>) st = Inr st1"
      and "st' = st1\<lparr> isEditingText := False, textEditingState := None \<rparr>"
      using assms m s
      by (auto simp: finalizeTextAnnotation_def Let_def
          split: option.splits annotation.splits sum.splits)
    then show ?thesis using addAnnotation_commits by fastforce
  qed
qed

lemma commit_step:
  assumes "commits m st" and "apply_mutation env m st = Inr st'"
  shows "undoStack st' = undoStack st @ [annotations st] \<and> redoStack st' = []"
proof (cases m)
  case (MAdd a)
  then show ?thesis using assms addAnnotation_commits by simp
next
  case MDeleteKey
  then show ?thesis using assms onDeleteKeyPressed_commits [of st "env_lib env" "env_answer env"]
    by (auto split: sum.splits)
next
  case MFinalizeText
  with assms obtain state where e: "isEditingText st" and t: "textEditingState st = Some state"
    and n: "trim (te_text state) \<noteq> []"
    by (auto split: option.splits)
  from assms(2) MFinalizeText have
    "finalizeTextAnnotation (env_drawCanvas env) (env_devicePixelRatio env) st = Inr st'"
    by simp
  from finalizeTextAnnotation_commits [OF e t n this] show ?thesis .
qed

lemma run_stacks:
  assumes "\<forall>(f, m) \<in> set steps. ephemeral f" and "run env steps st = Some sts"
  shows "length sts = length steps
     \<and> undoStack (last (st # sts)) = undoStack st @ map annotations (butlast (st # sts))
     \<and> (steps \<noteq> [] \<longrightarrow> redoStack (last (st # sts)) = [])"
  using assms
proof (induction steps arbitrary: st sts)
  case Nil
  then show ?case by simp
next
  case (Cons fm steps)
  obtain f m where fm: "fm = (f, m)" by (cases fm)
  from Cons.prems(1) fm have eph: "ephemeral f" and rest: "\<forall>(f, m) \<in> set steps. ephemeral f"
    by auto
  from Cons.prems(2) fm obtain st' sts' where c: "commits m (f st)"
    and a: "apply_mutation env m (f st) = Inr st'"
    and r: "run env steps st' = Some sts'" and sts: "sts = st' # sts'"
    by (auto split: if_splits sum.splits option.splits)
  from commit_step [OF c a] eph have
    u: "undoStack st' = undoStack st @ [annotations st]" and rd: "redoStack st' = []"
    by (simp_all add: ephemeral_def)
  from Cons.IH [OF rest r] have
    l: "length sts' = length steps"
    and us: "undoStack (last (st' # sts')) = undoStack st' @ map annotations (butlast (st' # sts'))"
    and rs: "steps \<noteq> [] \<longrightarrow> redoStack (last (st' # sts')) = []" by auto
  have "redoStack (last (st # sts)) = []"
  proof (cases steps)
    case Nil
    with r have "sts' = []" by simp
    then show ?thesis using sts rd by simp
  next
    case (Cons x xs)
    then show ?thesis using rs sts by simp
  qed
  then show ?case using l us u sts by simp
qed

lemma undo_pow:
  assumes "k \<le> length snaps" and "undoStack st = U @ snaps"
  shows "annotations ((undo ^^ k) st) = (snaps @ [annotations st]) ! (length snaps - k)
     \<and> undoStack ((undo ^^ k) st) = U @ take (length snaps - k) snaps"
  using assms(1)
proof (induction k)
  case 0
  then show ?case using assms(2) by (simp add: nth_append)
next
  case (Suc k)
  let ?s = "(undo ^^ k) st"
  let ?n = "length snaps"
  from Suc have a: "annotations ?s = (snaps @ [annotations st]) ! (?n - k)"
    and u: "undoStack ?s = U @ take (?n - k) snaps" by simp_all
  have ne: "take (?n - k) snaps \<noteq> []" using Suc.prems by (cases snaps) auto
  have lt: "?n - Suc k < ?n" using Suc.prems by simp
  have t: "take (?n - k) snaps = take (?n - Suc k) snaps @ [snaps ! (?n - Suc k)]"
  proof -
    have "?n - k = Suc (?n - Suc k)" using Suc.prems by simp
    then show ?thesis using lt by (simp add: take_Suc_conv_app_nth)
  qed
  have "undo ?s = ?s\<lparr> redoStack := redoStack ?s @ [annotations ?s],
               annotations := last (undoStack ?s),
               undoStack := butlast (undoStack ?s),
               selectedAnnotationIndex := - 1 \<rparr>"
    using u ne by (simp add: undo_def)
  moreover have "last (undoStack ?s) = snaps ! (?n - Suc k)"
    using u t by simp
  moreover have "butlast (undoStack ?s) = U @ take (?n - Suc k) snaps"
    using u t by (simp add: butlast_append)
  ultimately show ?case using lt by (simp add: nth_append)
qed

lemma redo_undo: "undoStack st \<noteq> [] \<Longrightarrow> same_hist (redo (undo st)) st"
  by (simp add: same_hist_def undo_def redo_def)

lemma undo_cong: "same_hist s t \<Longrightarrow> same_hist (undo s) (undo t)"
  by (simp add: same_hist_def undo_def)

lemma redo_cong: "same_hist s t \<Longrightarrow> same_hist (redo s) (redo t)"
  by (simp add: same_hist_def redo_def)

lemma redo_pow_cong: "same_hist s t \<Longrightarrow> same_hist ((redo ^^ k) s) ((redo ^^ k) t)"
  by (induction k) (simp_all add: redo_cong)

lemma redo_pow_undo_pow:
  "k \<le> length (undoStack st) \<Longrightarrow> same_hist ((redo ^^ k) ((undo ^^ k) st)) st"
proof (induction k)
  case 0
  then show ?case by (simp add: same_hist_def)
next
  case (Suc k)
  let ?s = "(undo ^^ k) st"
  have "undoStack ?s = [] @ take (length (undoStack st) - k) (undoStack st)"
    using undo_pow [of k "undoStack st" st "[]"] Suc.prems by simp
  then have ne: "undoStack ?s \<noteq> []" using Suc.prems by (cases "undoStack st") auto
  have "(redo ^^ Suc k) ((undo ^^ Suc k) st) = (redo ^^ k) (redo (undo ?s))"
    by (simp add: funpow_swap1)
  moreover have "same_hist ((redo ^^ k) (redo (undo ?s))) ((redo ^^ k) ?s)"
    using redo_pow_cong [OF redo_undo [OF ne]] .
  moreover have "same_hist ((redo ^^ k) ?s) st" using Suc by simp
  ultimately show ?case by (simp add: same_hist_def)
qed

lemma ephemeral_id: "ephemeral id"
  by (simp add: ephemeral_def)

lemma ephemeral_select_first: "ephemeral select_first"
  by (simp add: ephemeral_def select_first_def)

lemma add_image_four_pages: "addAnnotation (Image example_image) four_pages = Inr image_added"
  by (simp add: addAnnotation_def four_pages_def image_added_def initial_state_def
      pageIndex_of_def indexOf_def js_nth_def Let_def)

lemma delete_stroke_image_added:
  "onDeleteKeyPressed list_lib True (select_first image_added) = Inr (stroke_deleted, [])"
  by (simp add: onDeleteKeyPressed_def select_first_def image_added_def stroke_deleted_def
      four_pages_def initial_state_def pageIndex_of_def indexOf_def js_nth_def Let_def
      splice_def example_page_def)

lemma select_first_index: "selectedAnnotationIndex (select_first st) = 0"
  by (simp add: select_first_def)

lemma run_two_steps:
  "run list_env [(id, MAdd (Image example_image)), (select_first, MDeleteKey)] four_pages
     = Some [image_added, stroke_deleted]"
  by (simp add: add_image_four_pages delete_stroke_image_added list_env_def select_first_index)

text \<open>
  C2 (as amended). After N committed annotation mutations, N undos give back the model
  as it was before the first of them; for every k up to N, k undos give the model as it
  was just before the (N-k+1)-th mutation, and k redos after them give back the model
  after all N mutations. Each commit pushes the model before the mutation onto the undo
  stack and empties the redo stack; undo pops the top undo snapshot, pushes the current
  model onto the redo stack and installs the popped snapshot, redo symmetrically; both
  reset the selected annotation index to none. With nothing to pop, undo and redo return
  the state as it is. In \<open>st # sts\<close> the entry at position \<open>i\<close> is the state after
  \<open>i\<close> mutations.
\<close>

theorem undo_redo_history:
  assumes "\<forall>(f, m) \<in> set steps. ephemeral f" and "run env steps st = Some sts"
  shows "annotations ((undo ^^ length steps) (last (st # sts))) = annotations st
     \<and> (k \<le> length steps \<longrightarrow>
          annotations ((undo ^^ k) (last (st # sts)))
            = annotations ((st # sts) ! (length steps - k))
          \<and> annotations ((redo ^^ k) ((undo ^^ k) (last (st # sts))))
            = annotations (last (st # sts)))
     \<and> (commits m s \<and> apply_mutation env m s = Inr s' \<longrightarrow>
          undoStack s' = undoStack s @ [annotations s] \<and> redoStack s' = [])
     \<and> (undoStack s \<noteq> [] \<longrightarrow>
          undo s = s\<lparr> redoStack := redoStack s @ [annotations s],
                      annotations := last (undoStack s), undoStack := butlast (undoStack s),
                      selectedAnnotationIndex := - 1 \<rparr>)
     \<and> (redoStack s \<noteq> [] \<longrightarrow>
          redo s = s\<lparr> undoStack := undoStack s @ [annotations s],
                      annotations := last (redoStack s), redoStack := butlast (redoStack s),
                      selectedAnnotationIndex := - 1 \<rparr>)
     \<and> (undoStack s = [] \<longrightarrow> undo s = s)
     \<and> (redoStack s = [] \<longrightarrow> redo s = s)"
proof -
  let ?final = "last (st # sts)"
  let ?snaps = "map annotations (butlast (st # sts))"
  from run_stacks [OF assms] have l: "length sts = length steps"
    and u: "undoStack ?final = undoStack st @ ?snaps" by simp_all
  have n: "length ?snaps = length steps"
    using l length_butlast [of "st # sts"] by (simp del: butlast.simps)
  have all: "?snaps @ [annotations ?final] = map annotations (st # sts)"
  proof -
    have "butlast (st # sts) @ [?final] = st # sts" by (rule append_butlast_last_id) simp
    then have "map annotations (butlast (st # sts) @ [?final]) = map annotations (st # sts)"
      by simp
    then show ?thesis by simp
  qed
  have pow: "j \<le> length steps \<Longrightarrow>
      annotations ((undo ^^ j) ?final) = annotations ((st # sts) ! (length steps - j))" for j
  proof -
    assume j: "j \<le> length steps"
    then have "annotations ((undo ^^ j) ?final)
        = (?snaps @ [annotations ?final]) ! (length ?snaps - j)"
      using undo_pow [of j ?snaps ?final "undoStack st"] u n by simp
    also have "\<dots> = map annotations (st # sts) ! (length steps - j)"
      by (simp only: all n)
    also have "\<dots> = annotations ((st # sts) ! (length steps - j))"
      using l by (intro nth_map) simp
    finally show ?thesis .
  qed
  have h_first: "annotations ((undo ^^ length steps) ?final) = annotations st"
    using pow [of "length steps"] by simp
  have h_back: "k \<le> length steps \<Longrightarrow>
      annotations ((redo ^^ k) ((undo ^^ k) ?final)) = annotations ?final"
  proof -
    assume "k \<le> length steps"
    then have "k \<le> length (undoStack ?final)" using u n by simp
    from redo_pow_undo_pow [OF this] show ?thesis by (simp add: same_hist_def)
  qed
  show ?thesis
    using h_first pow [of k] h_back commit_step [of m s env s']
    by (simp add: undo_def redo_def)
qed


theorem undo_redo_history_witness:
  "ephemeral (id :: (int list, int list) state \<Rightarrow> _)
   \<and> ephemeral (select_first :: (int list, int list) state \<Rightarrow> _)
   \<and> run list_env [(id, MAdd (Image example_image)), (select_first, MDeleteKey)] four_pages
        = Some [image_added, stroke_deleted]
   \<and> annotations (undo (undo stroke_deleted)) = annotations four_pages
   \<and> annotations (undo stroke_deleted) = annotations image_added
   \<and> annotations (redo (undo stroke_deleted)) = annotations stroke_deleted
   \<and> undoStack four_pages = [] \<and> undo four_pages = four_pages"
proof -
  have e: "\<forall>(f, m) \<in> set [(id, MAdd (Image example_image)), (select_first, MDeleteKey)].
      ephemeral f"
    by (simp add: ephemeral_id ephemeral_select_first)
  have u: "undoStack four_pages = []" by (simp add: four_pages_def initial_state_def)
  from undo_redo_history [OF e run_two_steps, of 1 _ four_pages]
  show ?thesis using run_two_steps u by (simp add: ephemeral_id ephemeral_select_first)
qed

text \<open>
  One mutation, one undo, one redo: the model is the one after the mutation, not the one
  before it.
\<close>

theorem undo_then_redo_counterexample:
  "run list_env [(id, MAdd (Image example_image))] four_pages = Some [image_added]
   \<and> annotations (redo (undo image_added)) = annotations image_added
   \<and> annotations image_added \<noteq> annotations four_pages"
proof -
  have "run list_env [(id, MAdd (Image example_image))] four_pages = Some [image_added]"
    by (simp add: add_image_four_pages)
  moreover have "annotations (redo (undo image_added)) = annotations image_added"
    by (simp add: undo_def redo_def image_added_def)
  moreover have "annotations image_added \<noteq> annotations four_pages"
    by (simp add: image_added_def four_pages_def)
  ultimately show ?thesis by simp
qed

subsection \<open>Watermark\<close>

text \<open>
  Both backends use the same frame: a point at the same offset, in page units, from the
  centre of the text is seen at the same place, on the diagonal that rises to the right
  through the centre of the page.
\<close>

lemma preview_seen_eq:
  assumes "drawWatermark settings (Some (canvas_of_page (W, H) dpr st)) dpr st = Some c"
    and "scale st * pixelRatio_of dpr \<noteq> 0"
  shows "preview_seen c dpr st (u * (scale st * pixelRatio_of dpr), v * (scale st * pixelRatio_of dpr))
       = (W / 2 + (u + v) * (sqrt 2 / 2), H / 2 + (v - u) * (sqrt 2 / 2))"
proof -
  let ?k = "scale st * pixelRatio_of dpr"
  have c: "cf_transform c = m_translate (- (W * ?k / 2)) (- (H * ?k / 2))
              (m_rotate (- pi / 4) (m_translate (W * ?k / 2) (H * ?k / 2) m_identity))"
    and x: "cf_x c = W * ?k / 2" and y: "cf_y c = H * ?k / 2"
    using assms(1)
    by (auto simp: drawWatermark_def canvas_of_page_def Let_def split: if_splits)
  have "m_apply (cf_transform c) (cf_x c + u * ?k, cf_y c + v * ?k)
      = (W * ?k / 2 + (u + v) * (sqrt 2 / 2) * ?k, H * ?k / 2 + (v - u) * (sqrt 2 / 2) * ?k)"
    unfolding c x y
    by (simp add: m_apply_def m_translate_def m_rotate_def m_mul_def m_identity_def
        cos_45 sin_45 field_simps)
  then show ?thesis using assms(2)
    by (simp add: preview_seen_def add_divide_distrib)
qed

lemma export_seen_eq:
  assumes "exportWatermark watermark watermarkFont (W, H) = Some e"
  shows "export_seen e H (u, v) = (W / 2 + (u + v) * (sqrt 2 / 2), H / 2 + (v - u) * (sqrt 2 / 2))"
proof -
  have c: "pd_transform e = m_rotate (45 * pi / 180) (m_translate (W / 2) (H / 2) m_identity)"
    using assms by (auto simp: exportWatermark_def Let_def split: if_splits)
  show ?thesis unfolding export_seen_def c
    by (simp add: m_apply_def m_translate_def m_rotate_def m_mul_def m_identity_def
        cos_45 sin_45 field_simps)
qed

lemma watermark_same_frame:
  assumes "drawWatermark settings (Some (canvas_of_page (W, H) dpr st)) dpr st = Some c"
    and "exportWatermark settings watermarkFont (W, H) = Some e"
    and "scale st * pixelRatio_of dpr \<noteq> 0"
  shows "preview_seen c dpr st (u * (scale st * pixelRatio_of dpr), v * (scale st * pixelRatio_of dpr))
       = export_seen e H (u, v)"
  using preview_seen_eq [OF assms(1,3)] export_seen_eq [OF assms(2)] by simp

lemma watermark_font_sizes:
  assumes "drawWatermark settings (Some (canvas_of_page (W, H) dpr st)) dpr st = Some c"
    and "exportWatermark settings watermarkFont (W, H) = Some e"
    and "scale st * pixelRatio_of dpr \<noteq> 0"
  shows "cf_fontPx c / (scale st * pixelRatio_of dpr) = wm_size settings / 1.5
     \<and> pd_size e = wm_size settings"
proof -
  have "cf_fontPx c = wm_size settings * (scale st / 1.5) * pixelRatio_of dpr"
    using assms(1)
    by (auto simp: drawWatermark_def canvas_of_page_def Let_def split: if_splits)
  moreover have "pd_size e = wm_size settings"
    using assms(2) by (auto simp: exportWatermark_def Let_def split: if_splits)
  ultimately show ?thesis using assms(3) by (simp add: field_simps)
qed

text \<open>
  C9. The preview and the export do not put the watermark at the same place. With the
  default watermark (size 100) on a page of 600 by 800 points at the initial zoom 1.5, the
  point one em to the right of the centre of the text is seen 100 / 1.5 units along the
  diagonal in the preview and 100 units along it in the export: the preview sets the font
  to \<open>size * (scale / 1.5) * pixelRatio\<close> pixels on a canvas of \<open>scale * pixelRatio\<close> pixels
  per point, the export to \<open>size\<close> points.
\<close>

theorem watermark_preview_and_export_differ:
  "preview_point shown_watermark (600, 800) 1 four_pages (1, 0)
     = Some (300 + 100 / 1.5 * (sqrt 2 / 2), 400 - 100 / 1.5 * (sqrt 2 / 2))
   \<and> export_point shown_watermark helvetica_bold (600, 800) (1, 0)
     = Some (300 + 100 * (sqrt 2 / 2), 400 - 100 * (sqrt 2 / 2))
   \<and> preview_point shown_watermark (600, 800) 1 four_pages (1, 0)
     \<noteq> export_point shown_watermark helvetica_bold (600, 800) (1, 0)"
proof -
  have k: "scale four_pages * pixelRatio_of 1 = 1.5"
    by (simp add: four_pages_def initial_state_def pixelRatio_of_def)
  obtain c where c: "drawWatermark shown_watermark (Some (canvas_of_page (600, 800) 1 four_pages))
      1 four_pages = Some c"
    by (simp add: drawWatermark_def shown_watermark_def default_watermark_def canvas_of_page_def
        Let_def)
  obtain e where e: "exportWatermark shown_watermark helvetica_bold (600, 800) = Some e"
    by (simp add: exportWatermark_def shown_watermark_def default_watermark_def Let_def)
  have s: "wm_size shown_watermark = 100"
    by (simp add: shown_watermark_def default_watermark_def)
  have ne: "scale four_pages * pixelRatio_of 1 \<noteq> 0"
    by (simp add: four_pages_def initial_state_def pixelRatio_of_def)
  from watermark_font_sizes [OF c e ne] k s
  have f: "cf_fontPx c = 100" and g: "pd_size e = 100" by simp_all
  have "preview_seen c 1 four_pages (100 / 1.5 * (scale four_pages * pixelRatio_of 1),
          0 * (scale four_pages * pixelRatio_of 1))
      = (600 / 2 + (100 / 1.5 + 0) * (sqrt 2 / 2), 800 / 2 + (0 - 100 / 1.5) * (sqrt 2 / 2))"
    by (rule preview_seen_eq [OF c ne])
  then have p: "preview_seen c 1 four_pages (100, 0)
      = (300 + 100 / 1.5 * (sqrt 2 / 2), 400 - 100 / 1.5 * (sqrt 2 / 2))"
    using k by simp
  have "export_seen e 800 (100, 0)
      = (600 / 2 + (100 + 0) * (sqrt 2 / 2), 800 / 2 + (0 - 100) * (sqrt 2 / 2))"
    by (rule export_seen_eq [OF e])
  then have q: "export_seen e 800 (100, 0)
      = (300 + 100 * (sqrt 2 / 2), 400 - 100 * (sqrt 2 / 2))" by simp
  have pp: "preview_point shown_watermark (600, 800) 1 four_pages (1, 0)
     = Some (300 + 100 / 1.5 * (sqrt 2 / 2), 400 - 100 / 1.5 * (sqrt 2 / 2))"
    using c f p by (simp add: preview_point_def)
  have ep: "export_point shown_watermark helvetica_bold (600, 800) (1, 0)
     = Some (300 + 100 * (sqrt 2 / 2), 400 - 100 * (sqrt 2 / 2))"
    using e g q by (simp add: export_point_def)
  show ?thesis unfolding pp ep by simp
qed

end
